theory Spec2Isabelle
  imports Main
begin

section \<open>Clock, environment, password hashing\<close>

text \<open>
  The authentication controller (the second module stored in \<^verbatim>\<open>src/src/app.ts\<close>) and
  \<^verbatim>\<open>src/src/services/jwt.service.ts\<close> are embedded as pure functions over an explicit
  store. Every handler receives the clock reading of its request (\<^verbatim>\<open>Date.now()\<close>, in
  milliseconds) as an argument; one reading is used per request.

  The process environment is a record. The two lifetimes are kept in seconds, i.e. after
  the conversion that the JWT library applies to strings such as \<^verbatim>\<open>'15m'\<close>;
  \<open>None\<close> stands for an unset variable, for which the source falls back to
  \<^verbatim>\<open>'15m'\<close>, \<^verbatim>\<open>'7d'\<close> and \<^verbatim>\<open>'12'\<close>. An unset secret is the empty string: the
  source tests both with \<^verbatim>\<open>!secret\<close>, and so does the JWT library.

  \<open>TZ\<close> is the time zone of the server process, given as the function
  \<^verbatim>\<open>LocalTZA(t, isUTC)\<close> of the ECMAScript specification: the offset of local time from
  UTC in milliseconds, at the UTC time value \<open>t\<close> when \<open>isUTC\<close> holds and at the local
  time value \<open>t\<close> otherwise.
\<close>

type_synonym time = nat

record env =
  JWT_SECRET :: string
  JWT_REFRESH_SECRET :: string
  JWT_EXPIRES_IN :: "nat option"
  JWT_REFRESH_EXPIRES_IN :: "nat option"
  BCRYPT_SALT_ROUNDS :: "nat option"
  TZ :: "int \<Rightarrow> bool \<Rightarrow> int"

text \<open>
  bcryptjs is an external library. A hash is modelled symbolically: it records the cost
  factor and the password it was computed from, and \<^verbatim>\<open>compare\<close> succeeds exactly on
  that password.
\<close>

datatype pwhash = Bcrypt nat string

definition bcrypt_hash :: "string \<Rightarrow> nat \<Rightarrow> pwhash" where
  "bcrypt_hash pw rounds = Bcrypt rounds pw"

definition bcrypt_compare :: "string \<Rightarrow> pwhash \<Rightarrow> bool" where
  "bcrypt_compare pw h = (case h of Bcrypt _ pw' \<Rightarrow> pw = pw')"

definition saltRounds :: "env \<Rightarrow> nat" where
  "saltRounds e = (case BCRYPT_SALT_ROUNDS e of None \<Rightarrow> 12 | Some n \<Rightarrow> n)"

section \<open>JSON web tokens\<close>

text \<open>
  jsonwebtoken is an external library; its tokens are modelled symbolically. A token
  string is either a well-formed token, determined by the signing secret and the signed
  payload, or some other string. Signing is deterministic (HS256): the same claims signed
  with the same secret in the same second give the same string. \<^verbatim>\<open>sign\<close> stamps
  \<^verbatim>\<open>iat\<close> with the current second and, only when \<^verbatim>\<open>expiresIn\<close> is given, \<^verbatim>\<open>exp\<close>.
  \<^verbatim>\<open>verify\<close> checks the signature first and then \<^verbatim>\<open>exp\<close>, when the payload has one;
  with an empty secret it refuses every token. \<^verbatim>\<open>sign\<close> throws on an empty secret,
  which is modelled where it is called: \<open>jwt_sign\<close> is the string that it returns
  otherwise.
\<close>

record claims =
  c_userId :: nat
  c_email :: "string option"
  c_role :: "string option"
  c_sessionId :: "string option"
  c_type :: "string option"

record payload =
  p_claims :: claims
  p_iat :: nat
  p_exp :: "nat option"

datatype token = Jwt string payload | NotJwt string

datatype jwt_error = TokenExpiredError | JsonWebTokenError

definition jwt_sign :: "claims \<Rightarrow> string \<Rightarrow> nat option \<Rightarrow> time \<Rightarrow> token" where
  "jwt_sign c secret expiresIn now =
     Jwt secret \<lparr>p_claims = c, p_iat = now div 1000,
       p_exp = (case expiresIn of None \<Rightarrow> None | Some d \<Rightarrow> Some (now div 1000 + d))\<rparr>"

definition jwt_verify :: "token \<Rightarrow> string \<Rightarrow> time \<Rightarrow> jwt_error + payload" where
  "jwt_verify tok secret now =
     (case tok of
        NotJwt _ \<Rightarrow> Inl JsonWebTokenError
      | Jwt k p \<Rightarrow>
          if secret = [] \<or> k \<noteq> secret then Inl JsonWebTokenError
          else (case p_exp p of
                  None \<Rightarrow> Inr p
                | Some ex \<Rightarrow> if ex \<le> now div 1000 then Inl TokenExpiredError else Inr p))"

subsection \<open>JwtService\<close>

text \<open>
  The static methods of \<^verbatim>\<open>JwtService\<close>. A thrown \<^verbatim>\<open>Error(msg)\<close> is \<open>Inl msg\<close>.
  The secret getters throw on an empty secret; inside the \<^verbatim>\<open>try\<close> blocks this turns
  into the generic message of the enclosing method.
\<close>

definition getAccessExpiresIn :: "env \<Rightarrow> nat" where
  "getAccessExpiresIn e = (case JWT_EXPIRES_IN e of None \<Rightarrow> 15 * 60 | Some n \<Rightarrow> n)"

definition getRefreshExpiresIn :: "env \<Rightarrow> nat" where
  "getRefreshExpiresIn e =
     (case JWT_REFRESH_EXPIRES_IN e of None \<Rightarrow> 7 * 24 * 3600 | Some n \<Rightarrow> n)"

definition generateAccessToken ::
  "env \<Rightarrow> time \<Rightarrow> nat \<Rightarrow> string \<Rightarrow> string \<Rightarrow> string \<Rightarrow> string + token" where
  "generateAccessToken e now uid em rl sid =
     (if JWT_SECRET e = [] then Inl ''Failed to generate access token''
      else Inr (jwt_sign
        \<lparr>c_userId = uid, c_email = Some em, c_role = Some rl, c_sessionId = Some sid,
         c_type = Some ''access''\<rparr>
        (JWT_SECRET e) (Some (getAccessExpiresIn e)) now))"

definition generateRefreshToken ::
  "env \<Rightarrow> time \<Rightarrow> nat \<Rightarrow> string \<Rightarrow> string \<Rightarrow> string \<Rightarrow> string + token" where
  "generateRefreshToken e now uid em rl sid =
     (if JWT_REFRESH_SECRET e = [] then Inl ''Failed to generate refresh token''
      else Inr (jwt_sign
        \<lparr>c_userId = uid, c_email = Some em, c_role = Some rl, c_sessionId = Some sid,
         c_type = Some ''refresh''\<rparr>
        (JWT_REFRESH_SECRET e) (Some (getRefreshExpiresIn e)) now))"

definition verifyAccessToken :: "env \<Rightarrow> time \<Rightarrow> token \<Rightarrow> string + payload" where
  "verifyAccessToken e now tok =
     (if JWT_SECRET e = [] then Inl ''Access token verification failed''
      else (case jwt_verify tok (JWT_SECRET e) now of
              Inr decoded \<Rightarrow> Inr decoded
            | Inl TokenExpiredError \<Rightarrow> Inl ''Access token expired''
            | Inl JsonWebTokenError \<Rightarrow> Inl ''Invalid access token''))"

definition verifyRefreshToken :: "env \<Rightarrow> time \<Rightarrow> token \<Rightarrow> string + payload" where
  "verifyRefreshToken e now tok =
     (if JWT_REFRESH_SECRET e = [] then Inl ''Refresh token verification failed''
      else (case jwt_verify tok (JWT_REFRESH_SECRET e) now of
              Inr decoded \<Rightarrow> Inr decoded
            | Inl TokenExpiredError \<Rightarrow> Inl ''Refresh token expired''
            | Inl JsonWebTokenError \<Rightarrow> Inl ''Invalid refresh token''))"

definition generatePasswordResetToken ::
  "env \<Rightarrow> time \<Rightarrow> nat \<Rightarrow> string \<Rightarrow> string + token" where
  "generatePasswordResetToken e now uid em =
     (if JWT_SECRET e = [] then Inl ''Failed to generate password reset token''
      else Inr (jwt_sign
        \<lparr>c_userId = uid, c_email = Some em, c_role = None, c_sessionId = None,
         c_type = Some ''password_reset''\<rparr>
        (JWT_SECRET e) (Some 3600) now))"

definition verifyPasswordResetToken ::
  "env \<Rightarrow> time \<Rightarrow> token \<Rightarrow> string + (nat \<times> string option \<times> nat)" where
  "verifyPasswordResetToken e now tok =
     (if JWT_SECRET e = [] then Inl ''Password reset token verification failed''
      else (case jwt_verify tok (JWT_SECRET e) now of
              Inr decoded \<Rightarrow>
                if c_type (p_claims decoded) \<noteq> Some ''password_reset''
                then Inl ''Password reset token verification failed''
                else Inr (c_userId (p_claims decoded), c_email (p_claims decoded),
                          p_iat decoded)
            | Inl TokenExpiredError \<Rightarrow> Inl ''Password reset token expired''
            | Inl JsonWebTokenError \<Rightarrow> Inl ''Invalid password reset token''))"

definition generateEmailVerifyToken ::
  "env \<Rightarrow> time \<Rightarrow> nat \<Rightarrow> string \<Rightarrow> string + token" where
  "generateEmailVerifyToken e now uid em =
     (if JWT_SECRET e = [] then Inl ''Failed to generate email verification token''
      else Inr (jwt_sign
        \<lparr>c_userId = uid, c_email = Some em, c_role = None, c_sessionId = None,
         c_type = Some ''email_verify''\<rparr>
        (JWT_SECRET e) (Some (24 * 3600)) now))"

definition verifyEmailVerifyToken ::
  "env \<Rightarrow> time \<Rightarrow> token \<Rightarrow> string + (nat \<times> string option)" where
  "verifyEmailVerifyToken e now tok =
     (if JWT_SECRET e = [] then Inl ''Email verification token verification failed''
      else (case jwt_verify tok (JWT_SECRET e) now of
              Inr decoded \<Rightarrow>
                if c_type (p_claims decoded) \<noteq> Some ''email_verify''
                then Inl ''Email verification token verification failed''
                else Inr (c_userId (p_claims decoded), c_email (p_claims decoded))
            | Inl TokenExpiredError \<Rightarrow> Inl ''Email verification token expired''
            | Inl JsonWebTokenError \<Rightarrow> Inl ''Invalid email verification token''))"

section \<open>The credential store\<close>

text \<open>
  The Prisma schema is not among the sources; rows carry the columns that the controller
  reads and writes. Identifiers are natural numbers. Tables are lists in insertion order;
  no handler deletes a row.
\<close>

datatype role = USER | ADMIN | MODERATOR

datatype verification_status = PENDING | VERIFIED

record user =
  u_id :: nat
  u_email :: string
  u_password :: pwhash
  u_firstName :: "string option"
  u_lastName :: "string option"
  u_username :: "string option"
  u_avatar :: "string option"
  u_role :: role
  u_isActive :: bool
  u_isEmailVerified :: bool
  u_lastLoginAt :: "time option"
  u_createdAt :: time

record loginLog =
  ll_userId :: nat
  ll_loginType :: string
  ll_ipAddress :: string
  ll_userAgent :: string
  ll_isSuccess :: bool
  ll_failReason :: "string option"

record emailVerification =
  ev_id :: nat
  ev_userId :: nat
  ev_token :: string
  ev_email :: string
  ev_status :: verification_status
  ev_expiresAt :: time

record refreshTokenRow =
  rt_id :: nat
  rt_userId :: nat
  rt_token :: token
  rt_isRevoked :: bool
  rt_expiresAt :: int

record store =
  users :: "user list"
  loginLogs :: "loginLog list"
  emailVerifications :: "emailVerification list"
  refreshTokens :: "refreshTokenRow list"

subsection \<open>Queries and writes\<close>

text \<open>
  \<^verbatim>\<open>findUnique\<close> returns the row with the given unique column, \<^verbatim>\<open>update\<close> changes the
  row with the given key and throws (\<open>None\<close>) when there is none, \<^verbatim>\<open>updateMany\<close>
  changes every matching row and never throws, \<^verbatim>\<open>create\<close> appends a row with a new
  key and throws when a unique column would be duplicated.
\<close>

definition fresh_id :: "nat list \<Rightarrow> nat" where
  "fresh_id ids = Suc (fold max ids 0)"

definition user_findUnique_email :: "string \<Rightarrow> user list \<Rightarrow> user option" where
  "user_findUnique_email em us = find (\<lambda>u. u_email u = em) us"

definition user_findUnique_username :: "string \<Rightarrow> user list \<Rightarrow> user option" where
  "user_findUnique_username un us = find (\<lambda>u. u_username u = Some un) us"

definition user_findUnique_id :: "nat \<Rightarrow> user list \<Rightarrow> user option" where
  "user_findUnique_id i us = find (\<lambda>u. u_id u = i) us"

definition user_update :: "nat \<Rightarrow> (user \<Rightarrow> user) \<Rightarrow> user list \<Rightarrow> user list option" where
  "user_update i f us =
     (if list_ex (\<lambda>u. u_id u = i) us
      then Some (map (\<lambda>u. if u_id u = i then f u else u) us) else None)"

text \<open>
  Modelled from the spec: the column defaults of the missing schema. A new user has role
  USER, is active, and has \<open>isEmailVerified = false\<close>; e-mail and user name are unique.
\<close>

definition user_create ::
  "string \<Rightarrow> pwhash \<Rightarrow> string option \<Rightarrow> string option \<Rightarrow> string option \<Rightarrow> time \<Rightarrow>
   user list \<Rightarrow> (user \<times> user list) option" where
  "user_create em pw fn ln un now us =
     (if list_ex (\<lambda>u. u_email u = em) us
         \<or> (case un of None \<Rightarrow> False | Some n \<Rightarrow> list_ex (\<lambda>u. u_username u = Some n) us)
      then None
      else (let row = \<lparr>u_id = fresh_id (map u_id us), u_email = em, u_password = pw,
                        u_firstName = fn, u_lastName = ln, u_username = un,
                        u_avatar = None, u_role = USER, u_isActive = True,
                        u_isEmailVerified = False, u_lastLoginAt = None,
                        u_createdAt = now\<rparr>
            in Some (row, us @ [row])))"

definition emailVerification_findUnique_token ::
  "string \<Rightarrow> emailVerification list \<Rightarrow> emailVerification option" where
  "emailVerification_findUnique_token t vs = find (\<lambda>v. ev_token v = t) vs"

definition emailVerification_update ::
  "nat \<Rightarrow> (emailVerification \<Rightarrow> emailVerification) \<Rightarrow> emailVerification list \<Rightarrow>
   emailVerification list option" where
  "emailVerification_update i f vs =
     (if list_ex (\<lambda>v. ev_id v = i) vs
      then Some (map (\<lambda>v. if ev_id v = i then f v else v) vs) else None)"

text \<open>Modelled from the spec: a new verification row is PENDING and its token is unique.\<close>

definition emailVerification_create ::
  "nat \<Rightarrow> string \<Rightarrow> string \<Rightarrow> time \<Rightarrow> emailVerification list \<Rightarrow>
   emailVerification list option" where
  "emailVerification_create uid t em ex vs =
     (if list_ex (\<lambda>v. ev_token v = t) vs then None
      else Some (vs @ [\<lparr>ev_id = fresh_id (map ev_id vs), ev_userId = uid, ev_token = t,
                         ev_email = em, ev_status = PENDING, ev_expiresAt = ex\<rparr>]))"

definition refreshToken_findUnique_token ::
  "token \<Rightarrow> refreshTokenRow list \<Rightarrow> refreshTokenRow option" where
  "refreshToken_findUnique_token t rs = find (\<lambda>r. rt_token r = t) rs"

definition refreshToken_update ::
  "nat \<Rightarrow> (refreshTokenRow \<Rightarrow> refreshTokenRow) \<Rightarrow> refreshTokenRow list \<Rightarrow>
   refreshTokenRow list option" where
  "refreshToken_update i f rs =
     (if list_ex (\<lambda>r. rt_id r = i) rs
      then Some (map (\<lambda>r. if rt_id r = i then f r else r) rs) else None)"

definition refreshToken_updateMany ::
  "(refreshTokenRow \<Rightarrow> bool) \<Rightarrow> (refreshTokenRow \<Rightarrow> refreshTokenRow) \<Rightarrow>
   refreshTokenRow list \<Rightarrow> refreshTokenRow list" where
  "refreshToken_updateMany P f rs = map (\<lambda>r. if P r then f r else r) rs"

text \<open>
  Modelled from the spec: a new refresh-token row is not revoked and its token string is
  unique (the controller looks rows up with \<^verbatim>\<open>findUnique({ where: { token } })\<close>).
\<close>

definition refreshToken_create ::
  "nat \<Rightarrow> token \<Rightarrow> int \<Rightarrow> refreshTokenRow list \<Rightarrow> refreshTokenRow list option" where
  "refreshToken_create uid t ex rs =
     (if list_ex (\<lambda>r. rt_token r = t) rs then None
      else Some (rs @ [\<lparr>rt_id = fresh_id (map rt_id rs), rt_userId = uid, rt_token = t,
                         rt_isRevoked = False, rt_expiresAt = ex\<rparr>]))"

section \<open>Responses\<close>

text \<open>
  \<^verbatim>\<open>constants/errorCodes.ts\<close> is not among the sources: a member of \<^verbatim>\<open>ERROR_CODES\<close> is
  represented by its key. Success codes are string literals in the controller.
\<close>

datatype error_code =
  AUTH_USER_EXISTS | AUTH_USERNAME_TAKEN | AUTH_INVALID_CREDENTIALS
  | AUTH_ACCOUNT_DEACTIVATED | AUTH_TOKEN_EXPIRED | AUTH_INVALID_TOKEN
  | AUTH_USER_NOT_FOUND | AUTH_INVALID_PASSWORD | INTERNAL_ERROR

datatype code = ERROR_CODES error_code | Literal string

record registeredUser =
  ru_id :: nat
  ru_email :: string
  ru_firstName :: "string option"
  ru_lastName :: "string option"
  ru_username :: "string option"
  ru_isEmailVerified :: bool
  ru_createdAt :: time

record userResponse =
  ur_id :: nat
  ur_email :: string
  ur_firstName :: "string option"
  ur_lastName :: "string option"
  ur_username :: "string option"
  ur_avatar :: "string option"
  ur_role :: role
  ur_isEmailVerified :: bool
  ur_lastLoginAt :: "time option"

datatype data =
  Undefined | Null | RegisterData registeredUser
  | LoginData userResponse token token | TokensData token token

record apiResponse =
  success :: bool
  message :: string
  error :: "string option"
  data :: data
  code :: code
  timestamp :: time

record httpResponse =
  status :: nat
  body :: apiResponse

definition createSuccessResponse :: "data \<Rightarrow> string \<Rightarrow> code \<Rightarrow> time \<Rightarrow> apiResponse" where
  "createSuccessResponse d msg c now =
     \<lparr>success = True, message = msg, error = None, data = d, code = c, timestamp = now\<rparr>"

definition createErrorResponse :: "string \<Rightarrow> code \<Rightarrow> time \<Rightarrow> apiResponse" where
  "createErrorResponse msg c now =
     \<lparr>success = False, message = msg, error = Some msg, data = Undefined, code = c,
      timestamp = now\<rparr>"

definition json :: "nat \<Rightarrow> apiResponse \<Rightarrow> httpResponse" where
  "json st b = \<lparr>status = st, body = b\<rparr>"

definition internalError :: "time \<Rightarrow> httpResponse" where
  "internalError now =
     json 500 (createErrorResponse ''Internal server error'' (ERROR_CODES INTERNAL_ERROR) now)"

section \<open>The authentication controller\<close>

text \<open>
  Each handler maps the store to a response and the new store. The schema check
  \<^verbatim>\<open>validation.request(schema, req.body)\<close> is performed by zod; its outcome is an input of
  the handler: \<open>None\<close> when it throws (the handler's \<^verbatim>\<open>catch\<close> then answers 500),
  \<open>Some d\<close> with the validated fields otherwise. Store calls do not fail except where a
  write throws as described above; any throw ends in the handler's \<^verbatim>\<open>catch\<close> block and
  keeps the writes already made.
\<close>

text \<open>
  \<^verbatim>\<open>toLowerCase\<close> on the ASCII letters; every other character is kept (the schema's
  e-mail format admits ASCII only).
\<close>

definition lower_char :: "char \<Rightarrow> char" where
  "lower_char c =
     (case map_of (zip ''ABCDEFGHIJKLMNOPQRSTUVWXYZ'' ''abcdefghijklmnopqrstuvwxyz'') c of
        None \<Rightarrow> c
      | Some l \<Rightarrow> l)"

definition toLowerCase :: "string \<Rightarrow> string" where
  "toLowerCase s = map lower_char s"

record request =
  ip :: "string option"
  remoteAddress :: "string option"
  userAgentHeader :: "string option"

definition js_or :: "string option \<Rightarrow> string \<Rightarrow> string" where
  "js_or a b = (case a of None \<Rightarrow> b | Some x \<Rightarrow> if x = [] then b else x)"

text \<open>
  \<open>generateTokens\<close> signs the payload \<^verbatim>\<open>{ userId }\<close> twice, without options.
  \<^verbatim>\<open>jwt.sign\<close> throws when its secret is empty or undefined: \<open>None\<close>. Otherwise the
  result is the pair \<open>signedTokens\<close>.
\<close>

definition signedTokens :: "env \<Rightarrow> time \<Rightarrow> nat \<Rightarrow> token \<times> token" where
  "signedTokens e now uid =
     (let c = \<lparr>c_userId = uid, c_email = None, c_role = None, c_sessionId = None,
               c_type = None\<rparr>
      in (jwt_sign c (JWT_SECRET e) None now, jwt_sign c (JWT_REFRESH_SECRET e) None now))"

definition generateTokens :: "env \<Rightarrow> time \<Rightarrow> nat \<Rightarrow> (token \<times> token) option" where
  "generateTokens e now uid =
     (if JWT_SECRET e = [] \<or> JWT_REFRESH_SECRET e = [] then None
      else Some (signedTokens e now uid))"

datatype userRef = Unknown | UserId nat

definition logLoginAttempt ::
  "userRef \<Rightarrow> request \<Rightarrow> bool \<Rightarrow> string option \<Rightarrow> store \<Rightarrow> store" where
  "logLoginAttempt who req isSuccess failReason s =
     (case who of
        Unknown \<Rightarrow> s
      | UserId uid \<Rightarrow>
          s\<lparr>loginLogs := loginLogs s @
              [\<lparr>ll_userId = uid, ll_loginType = ''EMAIL'',
                ll_ipAddress = js_or (ip req) (js_or (remoteAddress req) ''unknown''),
                ll_userAgent = js_or (userAgentHeader req) ''unknown'',
                ll_isSuccess = isSuccess, ll_failReason = failReason\<rparr>]\<rparr>)"

record registerBody =
  rb_email :: string
  rb_password :: string
  rb_firstName :: "string option"
  rb_lastName :: "string option"
  rb_username :: "string option"

text \<open>
  \<open>rnd\<close> is the value of \<^verbatim>\<open>crypto.randomBytes(32).toString('hex')\<close> drawn by the request.
\<close>

definition register ::
  "env \<Rightarrow> time \<Rightarrow> string \<Rightarrow> request \<Rightarrow> registerBody option \<Rightarrow> store \<Rightarrow>
   httpResponse \<times> store" where
  "register e now rnd req bdy s =
     (case bdy of
        None \<Rightarrow> (internalError now, s)
      | Some d \<Rightarrow>
          (case user_findUnique_email (toLowerCase (rb_email d)) (users s) of
             Some existingUser \<Rightarrow>
               (json 409 (createErrorResponse ''User already exists with this email''
                            (ERROR_CODES AUTH_USER_EXISTS) now), s)
           | None \<Rightarrow>
               if (case rb_username d of
                     None \<Rightarrow> False
                   | Some un \<Rightarrow> un \<noteq> [] \<and> user_findUnique_username un (users s) \<noteq> None)
               then (json 409 (createErrorResponse ''Username already taken''
                                 (ERROR_CODES AUTH_USERNAME_TAKEN) now), s)
               else
                 (case user_create (toLowerCase (rb_email d))
                         (bcrypt_hash (rb_password d) (saltRounds e))
                         (rb_firstName d) (rb_lastName d) (rb_username d) now (users s) of
                    None \<Rightarrow> (internalError now, s)
                  | Some (usr, us') \<Rightarrow>
                      (let s1 = s\<lparr>users := us'\<rparr> in
                       case emailVerification_create (u_id usr) rnd (u_email usr)
                              (now + 24 * 60 * 60 * 1000) (emailVerifications s1) of
                         None \<Rightarrow> (internalError now, s1)
                       | Some vs' \<Rightarrow>
                           (json 201 (createSuccessResponse
                              (RegisterData
                                 \<lparr>ru_id = u_id usr, ru_email = u_email usr,
                                  ru_firstName = u_firstName usr,
                                  ru_lastName = u_lastName usr,
                                  ru_username = u_username usr,
                                  ru_isEmailVerified = u_isEmailVerified usr,
                                  ru_createdAt = u_createdAt usr\<rparr>)
                              ''Registration successful. Please check your email to verify your account.''
                              (Literal ''REGISTRATION_SUCCESS'') now),
                            logLoginAttempt (UserId (u_id usr)) req False
                              (Some ''REGISTRATION_PENDING_VERIFICATION'')
                              (s1\<lparr>emailVerifications := vs'\<rparr>))))))"

record loginBody =
  lb_email :: string
  lb_password :: string

text \<open>
  The expiry of a refresh-token row is computed by \<^verbatim>\<open>expiresAt = new Date()\<close> followed by
  \<^verbatim>\<open>expiresAt.setDate(expiresAt.getDate() + 7)\<close>. In ECMAScript \<^verbatim>\<open>getDate\<close> is the day of
  the month of \<^verbatim>\<open>LocalTime(t)\<close>, and \<^verbatim>\<open>setDate(d)\<close> builds the local time value with day
  \<open>d\<close> of the same month (days past the end of the month carry over) and the same time
  within the day, and converts it back with \<^verbatim>\<open>UTC\<close>. Adding 7 to the day therefore adds
  seven times 24 hours to the local time value; the stored time value is seven calendar
  days later in the zone of the server, which is an hour more or less than 168 hours
  when the offset of the zone changes in between. A stored date is a time value, kept as
  an integer.
\<close>

definition msPerDay :: int where
  "msPerDay = 86400000"

definition LocalTime :: "env \<Rightarrow> int \<Rightarrow> int" where
  "LocalTime e t = t + TZ e t True"

definition UTC :: "env \<Rightarrow> int \<Rightarrow> int" where
  "UTC e t = t - TZ e t False"

definition expiresAt :: "env \<Rightarrow> time \<Rightarrow> int" where
  "expiresAt e now = UTC e (LocalTime e (int now) + 7 * msPerDay)"

definition login ::
  "env \<Rightarrow> time \<Rightarrow> request \<Rightarrow> loginBody option \<Rightarrow> store \<Rightarrow> httpResponse \<times> store" where
  "login e now req bdy s =
     (case bdy of
        None \<Rightarrow> (internalError now, s)
      | Some d \<Rightarrow>
          (case user_findUnique_email (toLowerCase (lb_email d)) (users s) of
             None \<Rightarrow>
               (json 401 (createErrorResponse ''Invalid credentials''
                            (ERROR_CODES AUTH_INVALID_CREDENTIALS) now),
                logLoginAttempt Unknown req False (Some ''USER_NOT_FOUND'') s)
           | Some usr \<Rightarrow>
               if \<not> u_isActive usr
               then (json 403 (createErrorResponse ''Account is deactivated''
                                 (ERROR_CODES AUTH_ACCOUNT_DEACTIVATED) now),
                     logLoginAttempt (UserId (u_id usr)) req False
                       (Some ''ACCOUNT_DEACTIVATED'') s)
               else if \<not> bcrypt_compare (lb_password d) (u_password usr)
               then (json 401 (createErrorResponse ''Invalid credentials''
                                 (ERROR_CODES AUTH_INVALID_CREDENTIALS) now),
                     logLoginAttempt (UserId (u_id usr)) req False
                       (Some ''INVALID_PASSWORD'') s)
               else
                 (case user_update (u_id usr) (\<lambda>u. u\<lparr>u_lastLoginAt := Some now\<rparr>)
                         (users s) of
                    None \<Rightarrow> (internalError now, s)
                  | Some us' \<Rightarrow>
                      (let s1 = s\<lparr>users := us'\<rparr> in
                       case generateTokens e now (u_id usr) of
                         None \<Rightarrow> (internalError now, s1)
                       | Some toks \<Rightarrow>
                           (case refreshToken_create (u_id usr) (snd toks) (expiresAt e now)
                                   (refreshTokens s1) of
                              None \<Rightarrow> (internalError now, s1)
                            | Some rs' \<Rightarrow>
                                (json 200 (createSuccessResponse
                                   (LoginData
                                      \<lparr>ur_id = u_id usr, ur_email = u_email usr,
                                       ur_firstName = u_firstName usr,
                                       ur_lastName = u_lastName usr,
                                       ur_username = u_username usr,
                                       ur_avatar = u_avatar usr, ur_role = u_role usr,
                                       ur_isEmailVerified = u_isEmailVerified usr,
                                       ur_lastLoginAt = u_lastLoginAt usr\<rparr>
                                      (fst toks) (snd toks))
                                   ''Login successful'' (Literal ''LOGIN_SUCCESS'') now),
                                 logLoginAttempt (UserId (u_id usr)) req True None
                                   (s1\<lparr>refreshTokens := rs'\<rparr>)))))))"

definition refreshToken ::
  "env \<Rightarrow> time \<Rightarrow> token option \<Rightarrow> store \<Rightarrow> httpResponse \<times> store" where
  "refreshToken e now bdy s =
     (case bdy of
        None \<Rightarrow> (internalError now, s)
      | Some tok \<Rightarrow>
          (case jwt_verify tok (JWT_REFRESH_SECRET e) now of
             Inl err \<Rightarrow>
               (json 401 (createErrorResponse ''Invalid refresh token''
                            (ERROR_CODES AUTH_TOKEN_EXPIRED) now), s)
           | Inr decoded \<Rightarrow>
               (case refreshToken_findUnique_token tok (refreshTokens s) of
                  None \<Rightarrow>
                    (json 401 (createErrorResponse ''Invalid or expired refresh token''
                                 (ERROR_CODES AUTH_TOKEN_EXPIRED) now), s)
                | Some tokenRecord \<Rightarrow>
                    if rt_isRevoked tokenRecord \<or> rt_expiresAt tokenRecord < int now
                    then (json 401 (createErrorResponse ''Invalid or expired refresh token''
                                      (ERROR_CODES AUTH_TOKEN_EXPIRED) now), s)
                    else
                      (case generateTokens e now (c_userId (p_claims decoded)) of
                         None \<Rightarrow> (internalError now, s)
                       | Some toks \<Rightarrow>
                           (case refreshToken_update (rt_id tokenRecord)
                                   (\<lambda>r. r\<lparr>rt_isRevoked := True\<rparr>) (refreshTokens s) of
                              None \<Rightarrow> (internalError now, s)
                            | Some rs1 \<Rightarrow>
                                (let s1 = s\<lparr>refreshTokens := rs1\<rparr> in
                                 case refreshToken_create (c_userId (p_claims decoded))
                                        (snd toks) (expiresAt e now) (refreshTokens s1) of
                                   None \<Rightarrow> (internalError now, s1)
                                 | Some rs2 \<Rightarrow>
                                     (json 200 (createSuccessResponse
                                        (TokensData (fst toks) (snd toks))
                                        ''Tokens refreshed successfully''
                                        (Literal ''TOKEN_REFRESH_SUCCESS'') now),
                                      s1\<lparr>refreshTokens := rs2\<rparr>)))))))"

text \<open>
  \<^verbatim>\<open>logout\<close> has no schema in front of it (\<^verbatim>\<open>router.post('/logout', logout)\<close>) and
  reads \<^verbatim>\<open>req.body.refreshToken\<close> as it comes. The body is \<open>None\<close> when the request has
  no parsed body: destructuring \<^verbatim>\<open>undefined\<close> throws, and the \<^verbatim>\<open>catch\<close> block answers
  500. Otherwise the field is one of

    \<^item> \<open>Falsy\<close>: absent, or \<^verbatim>\<open>null\<close>, \<^verbatim>\<open>false\<close> or \<^verbatim>\<open>0\<close>;
    \<^item> \<open>Text t\<close>: a string that the database accepts as a value of the column (the
      empty string is falsy as well);
    \<^item> \<open>Filter P\<close>: an object that the database client accepts as a filter on the string
      column, such as \<^verbatim>\<open>{ not: '' }\<close>, given by the strings \<open>P\<close> that it selects;
    \<^item> \<open>Invalid\<close>: any other truthy value (\<^verbatim>\<open>true\<close>, a number, an array, another
      object, a string that the database refuses), for which \<^verbatim>\<open>updateMany\<close> throws.
\<close>

datatype tokenField = Falsy | Text token | Filter "token \<Rightarrow> bool" | Invalid

definition truthy :: "token \<Rightarrow> bool" where
  "truthy t = (t \<noteq> NotJwt [])"

text \<open>
  The statement \<^verbatim>\<open>if (refreshToken) { await prisma.refreshToken.updateMany(...) }\<close>;
  \<open>None\<close> when it throws.
\<close>

definition logout_updateMany :: "tokenField \<Rightarrow> store \<Rightarrow> store option" where
  "logout_updateMany f s =
     (case f of
        Falsy \<Rightarrow> Some s
      | Text t \<Rightarrow>
          if truthy t
          then Some (s\<lparr>refreshTokens :=
                        refreshToken_updateMany (\<lambda>r. rt_token r = t)
                          (\<lambda>r. r\<lparr>rt_isRevoked := True\<rparr>) (refreshTokens s)\<rparr>)
          else Some s
      | Filter P \<Rightarrow>
          Some (s\<lparr>refreshTokens :=
                    refreshToken_updateMany (\<lambda>r. P (rt_token r))
                      (\<lambda>r. r\<lparr>rt_isRevoked := True\<rparr>) (refreshTokens s)\<rparr>)
      | Invalid \<Rightarrow> None)"

definition logout :: "time \<Rightarrow> tokenField option \<Rightarrow> store \<Rightarrow> httpResponse \<times> store" where
  "logout now bdy s =
     (case bdy of
        None \<Rightarrow> (internalError now, s)
      | Some f \<Rightarrow>
          (case logout_updateMany f s of
             None \<Rightarrow> (internalError now, s)
           | Some s' \<Rightarrow>
               (json 200 (createSuccessResponse Null ''Logged out successfully''
                            (Literal ''LOGOUT_SUCCESS'') now), s')))"

definition verifyEmail :: "time \<Rightarrow> string \<Rightarrow> store \<Rightarrow> httpResponse \<times> store" where
  "verifyEmail now tok s =
     (case emailVerification_findUnique_token tok (emailVerifications s) of
        None \<Rightarrow>
          (json 400 (createErrorResponse ''Invalid verification token''
                       (ERROR_CODES AUTH_INVALID_TOKEN) now), s)
      | Some verification \<Rightarrow>
          if ev_expiresAt verification < now
          then (json 400 (createErrorResponse ''Verification token has expired''
                            (ERROR_CODES AUTH_TOKEN_EXPIRED) now), s)
          else if ev_status verification = VERIFIED
          then (json 200 (createSuccessResponse Null ''Email already verified''
                            (Literal ''EMAIL_ALREADY_VERIFIED'') now), s)
          else
            (case user_update (ev_userId verification)
                    (\<lambda>u. u\<lparr>u_isEmailVerified := True\<rparr>) (users s) of
               None \<Rightarrow> (internalError now, s)
             | Some us' \<Rightarrow>
                 (let s1 = s\<lparr>users := us'\<rparr> in
                  case emailVerification_update (ev_id verification)
                         (\<lambda>v. v\<lparr>ev_status := VERIFIED\<rparr>) (emailVerifications s1) of
                    None \<Rightarrow> (internalError now, s1)
                  | Some vs' \<Rightarrow>
                      (json 200 (createSuccessResponse Null ''Email verified successfully''
                                   (Literal ''EMAIL_VERIFICATION_SUCCESS'') now),
                       s1\<lparr>emailVerifications := vs'\<rparr>))))"

record changePasswordBody =
  cp_currentPassword :: string
  cp_newPassword :: string

text \<open>
  \<open>uid\<close> is \<^verbatim>\<open>req.user!.id\<close>, the identifier attached by the authentication middleware.
\<close>

definition changePassword ::
  "env \<Rightarrow> time \<Rightarrow> nat \<Rightarrow> changePasswordBody option \<Rightarrow> store \<Rightarrow> httpResponse \<times> store" where
  "changePassword e now uid bdy s =
     (case bdy of
        None \<Rightarrow> (internalError now, s)
      | Some d \<Rightarrow>
          (case user_findUnique_id uid (users s) of
             None \<Rightarrow>
               (json 404 (createErrorResponse ''User not found''
                            (ERROR_CODES AUTH_USER_NOT_FOUND) now), s)
           | Some usr \<Rightarrow>
               if \<not> bcrypt_compare (cp_currentPassword d) (u_password usr)
               then (json 400 (createErrorResponse ''Current password is incorrect''
                                 (ERROR_CODES AUTH_INVALID_PASSWORD) now), s)
               else
                 (case user_update uid
                         (\<lambda>u. u\<lparr>u_password := bcrypt_hash (cp_newPassword d) (saltRounds e)\<rparr>)
                         (users s) of
                    None \<Rightarrow> (internalError now, s)
                  | Some us' \<Rightarrow>
                      (json 200 (createSuccessResponse Null
                         ''Password changed successfully. Please log in again.''
                         (Literal ''PASSWORD_CHANGE_SUCCESS'') now),
                       s\<lparr>users := us',
                         refreshTokens :=
                           refreshToken_updateMany (\<lambda>r. rt_userId r = uid)
                             (\<lambda>r. r\<lparr>rt_isRevoked := True\<rparr>) (refreshTokens s)\<rparr>))))"

section \<open>Request sequences\<close>

text \<open>
  The six handlers above as one step function, and the store after a sequence of
  requests. \<open>revoked\<close> says that the stored row of a token string is marked revoked;
  \<open>integrity\<close> states two constraints of the store: the keys of the verification rows
  are distinct, and every verification row refers to an existing user.
\<close>

datatype request_op =
  Register time string request "registerBody option"
  | Login time request "loginBody option"
  | Refresh time "token option"
  | Logout time "tokenField option"
  | VerifyEmail time string
  | ChangePassword time nat "changePasswordBody option"

fun step :: "env \<Rightarrow> request_op \<Rightarrow> store \<Rightarrow> store" where
  "step e (Register now rnd req bdy) s = snd (register e now rnd req bdy s)"
| "step e (Login now req bdy) s = snd (login e now req bdy s)"
| "step e (Refresh now bdy) s = snd (refreshToken e now bdy s)"
| "step e (Logout now bdy) s = snd (logout now bdy s)"
| "step e (VerifyEmail now tok) s = snd (verifyEmail now tok s)"
| "step e (ChangePassword now uid bdy) s = snd (changePassword e now uid bdy s)"

definition run :: "env \<Rightarrow> request_op list \<Rightarrow> store \<Rightarrow> store" where
  "run e ops s = fold (step e) ops s"

definition empty_store :: store where
  "empty_store = \<lparr>users = [], loginLogs = [], emailVerifications = [], refreshTokens = []\<rparr>"

definition revoked :: "token \<Rightarrow> refreshTokenRow list \<Rightarrow> bool" where
  "revoked t rs =
     (case refreshToken_findUnique_token t rs of None \<Rightarrow> False | Some row \<Rightarrow> rt_isRevoked row)"

definition integrity :: "store \<Rightarrow> bool" where
  "integrity s =
     (distinct (map ev_id (emailVerifications s))
      \<and> list_all (\<lambda>v. list_ex (\<lambda>u. u_id u = ev_userId v) (users s)) (emailVerifications s))"

section \<open>Example data\<close>

text \<open>
  A small store used to instantiate the theorems below: an active user, a deactivated
  user, a pending e-mail verification and the refresh token that a login of the active
  user at time 0 stored.
\<close>

definition demo_env :: env where
  "demo_env = \<lparr>JWT_SECRET = ''access-secret'', JWT_REFRESH_SECRET = ''refresh-secret'',
                JWT_EXPIRES_IN = None, JWT_REFRESH_EXPIRES_IN = None,
                BCRYPT_SALT_ROUNDS = None, TZ = (\<lambda>t isUTC. 0)\<rparr>"

text \<open>
  A zone that changes its offset: five hours behind UTC until 2026-03-08T07:00:00Z, which
  is 02:00 local time, and four hours behind from then on.
\<close>

definition demo_zone :: "int \<Rightarrow> bool \<Rightarrow> int" where
  "demo_zone t isUTC =
     (if t < (if isUTC then 1772953200000 else 1772935200000)
      then - 18000000 else - 14400000)"

definition demo_env_dst :: env where
  "demo_env_dst = demo_env\<lparr>TZ := demo_zone\<rparr>"

definition demo_req :: request where
  "demo_req = \<lparr>ip = Some ''10.0.0.1'', remoteAddress = None, userAgentHeader = None\<rparr>"

definition demo_user :: user where
  "demo_user = \<lparr>u_id = 1, u_email = ''a@x.com'', u_password = Bcrypt 12 ''Passw0rd1'',
                 u_firstName = None, u_lastName = None, u_username = None, u_avatar = None,
                 u_role = USER, u_isActive = True, u_isEmailVerified = False,
                 u_lastLoginAt = None, u_createdAt = 0\<rparr>"

definition demo_disabled :: user where
  "demo_disabled = \<lparr>u_id = 2, u_email = ''b@x.com'', u_password = Bcrypt 12 ''Passw0rd2'',
                 u_firstName = None, u_lastName = None, u_username = None, u_avatar = None,
                 u_role = USER, u_isActive = False, u_isEmailVerified = False,
                 u_lastLoginAt = None, u_createdAt = 0\<rparr>"

definition demo_token :: "time \<Rightarrow> token" where
  "demo_token now = snd (signedTokens demo_env now 1)"

definition demo_verification :: emailVerification where
  "demo_verification =
     \<lparr>ev_id = 1, ev_userId = 1, ev_token = ''c0ffee'', ev_email = ''a@x.com'',
      ev_status = PENDING, ev_expiresAt = 86400000\<rparr>"

definition demo_store :: store where
  "demo_store = \<lparr>users = [demo_user, demo_disabled], loginLogs = [],
     emailVerifications = [demo_verification],
     refreshTokens =
       [\<lparr>rt_id = 1, rt_userId = 1, rt_token = demo_token 0, rt_isRevoked = False,
         rt_expiresAt = 604800000\<rparr>]\<rparr>"

text \<open>The store after the token of \<open>demo_store\<close> has been redeemed at time 5000.\<close>

definition demo_rotated :: store where
  "demo_rotated = demo_store\<lparr>refreshTokens :=
        [\<lparr>rt_id = 1, rt_userId = 1, rt_token = demo_token 0, rt_isRevoked = True,
          rt_expiresAt = 604800000\<rparr>,
         \<lparr>rt_id = 2, rt_userId = 1, rt_token = demo_token 5000, rt_isRevoked = False,
          rt_expiresAt = 604805000\<rparr>]\<rparr>"

text \<open>Request bodies for \<open>demo_store\<close>, and values that the instances below mention.\<close>

definition demo_right :: loginBody where
  "demo_right = \<lparr>lb_email = ''a@x.com'', lb_password = ''Passw0rd1''\<rparr>"

definition demo_change :: changePasswordBody where
  "demo_change = \<lparr>cp_currentPassword = ''Passw0rd1'', cp_newPassword = ''Passw0rd9''\<rparr>"

definition demo_wrong :: loginBody where
  "demo_wrong = \<lparr>lb_email = ''A@x.com'', lb_password = ''wrong''\<rparr>"

definition demo_failed_log :: loginLog where
  "demo_failed_log =
     \<lparr>ll_userId = 1, ll_loginType = ''EMAIL'', ll_ipAddress = ''10.0.0.1'',
      ll_userAgent = ''unknown'', ll_isSuccess = False,
      ll_failReason = Some ''INVALID_PASSWORD''\<rparr>"

definition demo_nobody :: loginBody where
  "demo_nobody = \<lparr>lb_email = ''nobody@x.com'', lb_password = ''wrong''\<rparr>"

definition demo_wrong_disabled :: loginBody where
  "demo_wrong_disabled = \<lparr>lb_email = ''b@x.com'', lb_password = ''wrong''\<rparr>"

definition demo_verify_token :: token where
  "demo_verify_token = Jwt ''access-secret''
     \<lparr>p_claims = \<lparr>c_userId = 1, c_email = Some ''a@x.com'', c_role = None,
                   c_sessionId = None, c_type = Some ''email_verify''\<rparr>,
      p_iat = 7, p_exp = Some 86407\<rparr>"

definition demo_register :: registerBody where
  "demo_register = \<lparr>rb_email = ''A@X.COM'', rb_password = ''Passw0rd3'',
     rb_firstName = None, rb_lastName = None, rb_username = None\<rparr>"

definition demo_verified :: store where
  "demo_verified = demo_store\<lparr>
     users := [demo_user\<lparr>u_isEmailVerified := True\<rparr>, demo_disabled],
     emailVerifications := [demo_verification\<lparr>ev_status := VERIFIED\<rparr>]\<rparr>"

section \<open>Auxiliary facts\<close>

lemmas demo_defs = demo_env_def demo_req_def demo_user_def demo_disabled_def demo_token_def
  demo_verification_def demo_store_def demo_rotated_def

lemmas response_defs = json_def createSuccessResponse_def createErrorResponse_def
  internalError_def

lemmas refresh_eval = refreshToken_def jwt_verify_def jwt_sign_def generateTokens_def signedTokens_def
  refreshToken_findUnique_token_def refreshToken_update_def refreshToken_create_def
  fresh_id_def expiresAt_def LocalTime_def UTC_def msPerDay_def Let_def

lemma find_map_pres:
  assumes "\<And>x. P (f x) = P x"
  shows "find P (map f xs) = map_option f (find P xs)"
  using assms by (induction xs) auto

lemma find_append_Some: "find P xs = Some x \<Longrightarrow> find P (xs @ ys) = Some x"
  by (induction xs) (auto split: if_splits)

lemma find_append_None: "find P xs = None \<Longrightarrow> find P (xs @ ys) = find P ys"
  by (induction xs) (auto split: if_splits)

lemma find_None_list_ex: "(find P xs = None) = (\<not> list_ex P xs)"
  by (induction xs) auto

lemma find_SomeD: "find P xs = Some x \<Longrightarrow> P x \<and> x \<in> set xs"
  by (induction xs) (auto split: if_splits)

lemma status_json [simp]: "status (json n b) = n"
  by (simp add: json_def)

lemma body_json [simp]: "body (json n b) = b"
  by (simp add: json_def)

lemma status_internalError [simp]: "status (internalError now) = 500"
  by (simp add: internalError_def)

subsection \<open>Refresh-token rows\<close>

lemma update_find:
  assumes "refreshToken_update i (\<lambda>r. r\<lparr>rt_isRevoked := True\<rparr>) rs = Some rs1"
  shows "refreshToken_findUnique_token t rs1 =
         map_option (\<lambda>r. if rt_id r = i then r\<lparr>rt_isRevoked := True\<rparr> else r)
           (refreshToken_findUnique_token t rs)"
proof -
  have "rs1 = map (\<lambda>r. if rt_id r = i then r\<lparr>rt_isRevoked := True\<rparr> else r) rs"
    using assms by (simp add: refreshToken_update_def split: if_splits)
  then show ?thesis
    unfolding refreshToken_findUnique_token_def by (simp only:) (rule find_map_pres, simp)
qed

lemma update_tokens:
  assumes "refreshToken_update i (\<lambda>r. r\<lparr>rt_isRevoked := True\<rparr>) rs = Some rs1"
  shows "map rt_token rs1 = map rt_token rs"
  using assms by (auto simp: refreshToken_update_def split: if_splits)

lemma update_defined:
  assumes "refreshToken_findUnique_token t rs = Some row"
  shows "\<exists>rs1. refreshToken_update (rt_id row) f rs = Some rs1"
  using find_SomeD[OF assms[unfolded refreshToken_findUnique_token_def]]
  by (auto simp: refreshToken_update_def list_ex_iff)

lemma updateMany_find:
  "refreshToken_findUnique_token t
     (refreshToken_updateMany P (\<lambda>r. r\<lparr>rt_isRevoked := True\<rparr>) rs) =
   map_option (\<lambda>r. if P r then r\<lparr>rt_isRevoked := True\<rparr> else r)
     (refreshToken_findUnique_token t rs)"
  unfolding refreshToken_findUnique_token_def refreshToken_updateMany_def
  by (rule find_map_pres) simp

lemma updateMany_all_revoked:
  "list_all (\<lambda>r. P r \<longrightarrow> rt_isRevoked r)
     (refreshToken_updateMany P (\<lambda>r. r\<lparr>rt_isRevoked := True\<rparr>) rs)"
  by (induction rs) (simp_all add: refreshToken_updateMany_def)

lemma updateMany_idem:
  "refreshToken_updateMany P (\<lambda>r. r\<lparr>rt_isRevoked := True\<rparr>)
     (refreshToken_updateMany P (\<lambda>r. r\<lparr>rt_isRevoked := True\<rparr>) rs)
   = refreshToken_updateMany P (\<lambda>r. r\<lparr>rt_isRevoked := True\<rparr>) rs"
  by (induction rs) (simp_all add: refreshToken_updateMany_def)

lemma updateMany_noop:
  assumes "list_all (\<lambda>r. P r \<longrightarrow> rt_isRevoked r) rs"
  shows "refreshToken_updateMany P (\<lambda>r. r\<lparr>rt_isRevoked := True\<rparr>) rs = rs"
  using assms by (induction rs) (simp_all add: refreshToken_updateMany_def)

lemma create_find_old:
  assumes "refreshToken_create uid t' ex rs = Some rs2"
    and "refreshToken_findUnique_token t rs = Some row"
  shows "refreshToken_findUnique_token t rs2 = Some row"
  using assms
  by (auto simp: refreshToken_create_def refreshToken_findUnique_token_def find_append_Some
           split: if_splits)

lemma create_find_new:
  assumes "refreshToken_create uid t' ex rs = Some rs2"
  shows "refreshToken_findUnique_token t' rs2 =
         Some \<lparr>rt_id = fresh_id (map rt_id rs), rt_userId = uid, rt_token = t',
               rt_isRevoked = False, rt_expiresAt = ex\<rparr>"
  using assms
  by (auto simp: refreshToken_create_def refreshToken_findUnique_token_def find_append_None
                 find_None_list_ex split: if_splits)

lemma create_defined:
  "(\<exists>rs2. refreshToken_create uid t ex rs = Some rs2) = (t \<notin> rt_token ` set rs)"
  by (auto simp: refreshToken_create_def list_ex_iff)

lemma jwt_verify_secret:
  assumes "jwt_verify t k now = Inr p"
  shows "k \<noteq> []"
  using assms by (auto simp: jwt_verify_def split: token.splits if_splits)

lemma generateTokens_Some:
  "(generateTokens e now uid = Some toks) =
     (JWT_SECRET e \<noteq> [] \<and> JWT_REFRESH_SECRET e \<noteq> [] \<and> toks = signedTokens e now uid)"
  by (auto simp: generateTokens_def)

lemma generateTokens_None:
  "(generateTokens e now uid = None) = (JWT_SECRET e = [] \<or> JWT_REFRESH_SECRET e = [])"
  by (simp add: generateTokens_def)

lemma signedTokens_verify:
  assumes "JWT_REFRESH_SECRET e \<noteq> []"
  shows "jwt_verify (snd (signedTokens e now uid)) (JWT_REFRESH_SECRET e) now' =
     Inr \<lparr>p_claims = \<lparr>c_userId = uid, c_email = None, c_role = None, c_sessionId = None,
                        c_type = None\<rparr>,
          p_iat = now div 1000, p_exp = None\<rparr>"
  using assms by (simp add: signedTokens_def jwt_verify_def jwt_sign_def Let_def)

subsection \<open>The branches of \<open>refreshToken\<close>\<close>

lemma refreshToken_ok_cases:
  assumes run: "refreshToken e now (Some t) s = (r, s')" and ok: "status r = 200"
  obtains p row rs1 rs2 where
    "jwt_verify t (JWT_REFRESH_SECRET e) now = Inr p"
    "refreshToken_findUnique_token t (refreshTokens s) = Some row"
    "\<not> rt_isRevoked row" "\<not> rt_expiresAt row < int now"
    "JWT_SECRET e \<noteq> []" "JWT_REFRESH_SECRET e \<noteq> []"
    "refreshToken_update (rt_id row) (\<lambda>r. r\<lparr>rt_isRevoked := True\<rparr>) (refreshTokens s) = Some rs1"
    "refreshToken_create (c_userId (p_claims p)) (snd (signedTokens e now (c_userId (p_claims p))))
       (expiresAt e now) rs1 = Some rs2"
    "s' = s\<lparr>refreshTokens := rs2\<rparr>"
    "r = json 200 (createSuccessResponse
           (TokensData (fst (signedTokens e now (c_userId (p_claims p))))
                       (snd (signedTokens e now (c_userId (p_claims p)))))
           ''Tokens refreshed successfully'' (Literal ''TOKEN_REFRESH_SUCCESS'') now)"
proof -
  obtain p where p: "jwt_verify t (JWT_REFRESH_SECRET e) now = Inr p"
    using run ok by (cases "jwt_verify t (JWT_REFRESH_SECRET e) now") (auto simp: refreshToken_def)
  obtain row where row: "refreshToken_findUnique_token t (refreshTokens s) = Some row"
    using run ok p
    by (cases "refreshToken_findUnique_token t (refreshTokens s)") (auto simp: refreshToken_def)
  have live: "\<not> rt_isRevoked row" "\<not> rt_expiresAt row < int now"
    using run ok p row by (auto simp: refreshToken_def split: if_splits)
  have gen: "generateTokens e now (c_userId (p_claims p))
               = Some (signedTokens e now (c_userId (p_claims p)))"
    using run ok p row live
    by (cases "generateTokens e now (c_userId (p_claims p))")
       (auto simp: refreshToken_def generateTokens_Some)
  then have sec: "JWT_SECRET e \<noteq> []" "JWT_REFRESH_SECRET e \<noteq> []"
    by (simp_all add: generateTokens_Some)
  obtain rs1 where rs1:
    "refreshToken_update (rt_id row) (\<lambda>r. r\<lparr>rt_isRevoked := True\<rparr>) (refreshTokens s) = Some rs1"
    using run ok p row live gen
    by (cases "refreshToken_update (rt_id row) (\<lambda>r. r\<lparr>rt_isRevoked := True\<rparr>) (refreshTokens s)")
       (auto simp: refreshToken_def Let_def)
  obtain rs2 where rs2:
    "refreshToken_create (c_userId (p_claims p)) (snd (signedTokens e now (c_userId (p_claims p))))
       (expiresAt e now) rs1 = Some rs2"
    using run ok p row live gen rs1
    by (cases "refreshToken_create (c_userId (p_claims p))
                 (snd (signedTokens e now (c_userId (p_claims p)))) (expiresAt e now) rs1")
       (auto simp: refreshToken_def Let_def)
  have "s' = s\<lparr>refreshTokens := rs2\<rparr>"
    and "r = json 200 (createSuccessResponse
           (TokensData (fst (signedTokens e now (c_userId (p_claims p))))
                       (snd (signedTokens e now (c_userId (p_claims p)))))
           ''Tokens refreshed successfully'' (Literal ''TOKEN_REFRESH_SUCCESS'') now)"
    using run p row live gen rs1 rs2 by (auto simp: refreshToken_def Let_def)
  with p row live sec rs1 rs2 show ?thesis using that by blast
qed

lemma refreshToken_rejects_revoked:
  assumes "refreshToken_findUnique_token t (refreshTokens s) = Some row" and "rt_isRevoked row"
  shows "status (fst (refreshToken e now (Some t) s)) = 401
       \<and> code (body (fst (refreshToken e now (Some t) s))) = ERROR_CODES AUTH_TOKEN_EXPIRED
       \<and> snd (refreshToken e now (Some t) s) = s"
  using assms
  by (auto simp: refreshToken_def createErrorResponse_def split: sum.splits)

lemma refreshToken_accepts:
  assumes "jwt_verify t (JWT_REFRESH_SECRET e) now = Inr p"
    and "refreshToken_findUnique_token t (refreshTokens s) = Some row"
    and "\<not> rt_isRevoked row" and "\<not> rt_expiresAt row < int now"
    and "snd (signedTokens e now (c_userId (p_claims p))) \<notin> rt_token ` set (refreshTokens s)"
    and "JWT_SECRET e \<noteq> []"
  shows "status (fst (refreshToken e now (Some t) s)) = 200"
proof -
  have gen: "generateTokens e now (c_userId (p_claims p))
               = Some (signedTokens e now (c_userId (p_claims p)))"
    using assms(6) jwt_verify_secret[OF assms(1)] by (simp add: generateTokens_Some)
  obtain rs1 where rs1:
    "refreshToken_update (rt_id row) (\<lambda>r. r\<lparr>rt_isRevoked := True\<rparr>) (refreshTokens s) = Some rs1"
    using update_defined[OF assms(2)] by blast
  have "set (map rt_token rs1) = set (map rt_token (refreshTokens s))"
    using update_tokens[OF rs1] by simp
  then have "snd (signedTokens e now (c_userId (p_claims p))) \<notin> rt_token ` set rs1"
    using assms(5) by simp
  then obtain rs2 where
    "refreshToken_create (c_userId (p_claims p)) (snd (signedTokens e now (c_userId (p_claims p))))
       (expiresAt e now) rs1 = Some rs2"
    using create_defined by blast
  then show ?thesis using assms(1-4) gen rs1 by (simp add: refreshToken_def Let_def)
qed

lemma demo_refresh:
  "refreshToken demo_env 5000 (Some (demo_token 0)) demo_store =
     (json 200 (createSuccessResponse
        (TokensData (fst (signedTokens demo_env 5000 1)) (demo_token 5000))
        ''Tokens refreshed successfully'' (Literal ''TOKEN_REFRESH_SUCCESS'') 5000),
      demo_rotated)"
  by (simp add: demo_defs refresh_eval response_defs)

subsection \<open>The audit log\<close>

lemma logLoginAttempt_row:
  "\<exists>row. loginLogs (logLoginAttempt (UserId uid) req ok why s) = loginLogs s @ [row]
     \<and> ll_userId row = uid \<and> ll_isSuccess row = ok \<and> ll_failReason row = why"
  by (simp add: logLoginAttempt_def)

lemma logLoginAttempt_frame [simp]:
  "users (logLoginAttempt who req ok why s) = users s"
  "refreshTokens (logLoginAttempt who req ok why s) = refreshTokens s"
  "emailVerifications (logLoginAttempt who req ok why s) = emailVerifications s"
  by (simp_all add: logLoginAttempt_def split: userRef.splits)

section \<open>Facts about request sequences\<close>

subsection \<open>A revoked row stays revoked\<close>

lemma revoked_rejected:
  assumes "revoked t (refreshTokens s)"
  shows "status (fst (refreshToken e now (Some t) s)) = 401
       \<and> code (body (fst (refreshToken e now (Some t) s))) = ERROR_CODES AUTH_TOKEN_EXPIRED
       \<and> snd (refreshToken e now (Some t) s) = s"
proof -
  from assms obtain row where
    "refreshToken_findUnique_token t (refreshTokens s) = Some row" "rt_isRevoked row"
    by (auto simp: revoked_def split: option.splits)
  then show ?thesis by (rule refreshToken_rejects_revoked)
qed

lemma revoked_update:
  assumes "refreshToken_update i (\<lambda>r. r\<lparr>rt_isRevoked := True\<rparr>) rs = Some rs1"
    and "revoked t rs"
  shows "revoked t rs1"
  using assms(2) unfolding revoked_def update_find[OF assms(1)]
  by (cases "refreshToken_findUnique_token t rs") simp_all

lemma revoked_create:
  assumes "refreshToken_create uid t' ex rs = Some rs2" and "revoked t rs"
  shows "revoked t rs2"
proof -
  from assms(2) obtain row where
    row: "refreshToken_findUnique_token t rs = Some row" "rt_isRevoked row"
    by (auto simp: revoked_def split: option.splits)
  from create_find_old[OF assms(1) row(1)] row(2) show ?thesis
    by (simp add: revoked_def)
qed

lemma revoked_updateMany:
  assumes "revoked t rs"
  shows "revoked t (refreshToken_updateMany P (\<lambda>r. r\<lparr>rt_isRevoked := True\<rparr>) rs)"
  using assms unfolding revoked_def updateMany_find
  by (cases "refreshToken_findUnique_token t rs") simp_all

lemma register_refreshTokens:
  "refreshTokens (snd (register e now rnd req bdy s)) = refreshTokens s"
proof (cases bdy)
  case None
  then show ?thesis by (simp add: register_def)
next
  case (Some d)
  show ?thesis
  proof (cases "user_findUnique_email (toLowerCase (rb_email d)) (users s)")
    case (Some u)
    then show ?thesis using \<open>bdy = Some d\<close> by (simp add: register_def)
  next
    case None
    show ?thesis
    proof (cases "user_create (toLowerCase (rb_email d))
                    (bcrypt_hash (rb_password d) (saltRounds e))
                    (rb_firstName d) (rb_lastName d) (rb_username d) now (users s)")
      case c: None
      then show ?thesis using \<open>bdy = Some d\<close> None by (simp add: register_def)
    next
      case c: (Some p)
      obtain usr us' where p: "p = (usr, us')" by (cases p)
      show ?thesis
        using \<open>bdy = Some d\<close> None c p
        by (cases "emailVerification_create (u_id usr) rnd (u_email usr)
                     (now + 24 * 60 * 60 * 1000) (emailVerifications (s\<lparr>users := us'\<rparr>))")
           (simp_all add: register_def Let_def)
    qed
  qed
qed

lemma verifyEmail_refreshTokens:
  "refreshTokens (snd (verifyEmail now tok s)) = refreshTokens s"
proof (cases "emailVerification_findUnique_token tok (emailVerifications s)")
  case None
  then show ?thesis by (simp add: verifyEmail_def)
next
  case (Some v)
  show ?thesis
  proof (cases "user_update (ev_userId v) (\<lambda>u. u\<lparr>u_isEmailVerified := True\<rparr>) (users s)")
    case None
    then show ?thesis using Some by (simp add: verifyEmail_def)
  next
    case u: (Some us')
    show ?thesis
      using Some u
      by (cases "emailVerification_update (ev_id v) (\<lambda>v. v\<lparr>ev_status := VERIFIED\<rparr>)
                   (emailVerifications (s\<lparr>users := us'\<rparr>))")
         (simp_all add: verifyEmail_def Let_def)
  qed
qed

lemma login_revoked:
  assumes "revoked t (refreshTokens s)"
  shows "revoked t (refreshTokens (snd (login e now req bdy s)))"
proof (cases bdy)
  case None
  then show ?thesis using assms by (simp add: login_def)
next
  case (Some d)
  show ?thesis
  proof (cases "user_findUnique_email (toLowerCase (lb_email d)) (users s)")
    case None
    then show ?thesis using assms Some by (simp add: login_def)
  next
    case u: (Some usr)
    show ?thesis
    proof (cases "user_update (u_id usr) (\<lambda>u. u\<lparr>u_lastLoginAt := Some now\<rparr>) (users s)")
      case None
      then show ?thesis using assms Some u by (simp add: login_def)
    next
      case up: (Some us')
      show ?thesis
      proof (cases "refreshToken_create (u_id usr) (snd (signedTokens e now (u_id usr)))
                      (expiresAt e now) (refreshTokens s)")
        case None
        then show ?thesis using assms Some u up by (simp add: login_def generateTokens_def Let_def)
      next
        case c: (Some rs')
        have "revoked t rs'" by (rule revoked_create[OF c assms])
        then show ?thesis using assms Some u up c by (simp add: login_def generateTokens_def Let_def)
      qed
    qed
  qed
qed

lemma refreshToken_revoked:
  assumes "revoked t (refreshTokens s)"
  shows "revoked t (refreshTokens (snd (refreshToken e now bdy s)))"
proof (cases bdy)
  case None
  then show ?thesis using assms by (simp add: refreshToken_def)
next
  case (Some tok)
  show ?thesis
  proof (cases "jwt_verify tok (JWT_REFRESH_SECRET e) now")
    case (Inl err)
    then show ?thesis using assms Some by (simp add: refreshToken_def)
  next
    case (Inr p)
    show ?thesis
    proof (cases "refreshToken_findUnique_token tok (refreshTokens s)")
      case None
      then show ?thesis using assms Some Inr by (simp add: refreshToken_def)
    next
      case f: (Some row)
      show ?thesis
      proof (cases "refreshToken_update (rt_id row) (\<lambda>r. r\<lparr>rt_isRevoked := True\<rparr>)
                      (refreshTokens s)")
        case None
        then show ?thesis using assms Some Inr f by (simp add: refreshToken_def generateTokens_def Let_def)
      next
        case u: (Some rs1)
        have r1: "revoked t rs1" by (rule revoked_update[OF u assms])
        show ?thesis
        proof (cases "refreshToken_create (c_userId (p_claims p))
                        (snd (signedTokens e now (c_userId (p_claims p))))
                        (expiresAt e now) rs1")
          case None
          then show ?thesis using assms r1 Some Inr f u by (simp add: refreshToken_def generateTokens_def Let_def)
        next
          case c: (Some rs2)
          have "revoked t rs2" by (rule revoked_create[OF c r1])
          then show ?thesis
            using assms r1 Some Inr f u c by (simp add: refreshToken_def generateTokens_def Let_def)
        qed
      qed
    qed
  qed
qed

lemma logout_revoked:
  assumes "revoked t (refreshTokens s)"
  shows "revoked t (refreshTokens (snd (logout now bdy s)))"
proof (cases bdy)
  case None
  then show ?thesis using assms by (simp add: logout_def)
next
  case (Some f)
  then show ?thesis
    using assms by (cases f) (simp_all add: logout_def logout_updateMany_def revoked_updateMany)
qed

lemma changePassword_revoked:
  assumes "revoked t (refreshTokens s)"
  shows "revoked t (refreshTokens (snd (changePassword e now uid bdy s)))"
proof (cases bdy)
  case None
  then show ?thesis using assms by (simp add: changePassword_def)
next
  case (Some d)
  show ?thesis
  proof (cases "user_findUnique_id uid (users s)")
    case None
    then show ?thesis using assms Some by (simp add: changePassword_def)
  next
    case u: (Some usr)
    show ?thesis
      using assms Some u
      by (cases "user_update uid
                   (\<lambda>u. u\<lparr>u_password := bcrypt_hash (cp_newPassword d) (saltRounds e)\<rparr>)
                   (users s)")
         (simp_all add: changePassword_def revoked_updateMany)
  qed
qed

lemma step_revoked:
  assumes "revoked t (refreshTokens s)"
  shows "revoked t (refreshTokens (step e a s))"
  using assms
  by (cases a)
     (simp_all add: register_refreshTokens verifyEmail_refreshTokens login_revoked
        refreshToken_revoked logout_revoked changePassword_revoked)

lemma run_revoked:
  assumes "revoked t (refreshTokens s)"
  shows "revoked t (refreshTokens (run e ops s))"
  using assms unfolding run_def
  by (induction ops arbitrary: s) (simp_all add: step_revoked)

subsection \<open>New users\<close>

lemma user_create_member:
  assumes "user_create em pw fn ln un now us = Some (usr, us')"
  shows "usr \<in> set us' \<and> u_email usr = em \<and> us' = us @ [usr]"
  using assms by (auto simp: user_create_def Let_def split: if_splits)

lemma user_create_fresh:
  assumes "user_create em pw fn ln un now us = Some (usr, us')"
  shows "em \<notin> set (map u_email us)"
proof -
  have "\<not> list_ex (\<lambda>u. u_email u = em) us"
    using assms by (simp add: user_create_def split: if_splits)
  then have "\<forall>u \<in> set us. u_email u \<noteq> em" by (simp add: list_ex_iff)
  then show ?thesis unfolding set_map image_iff by metis
qed

lemma register_distinct_emails:
  assumes "distinct (map u_email (users s))"
  shows "distinct (map u_email (users (snd (register e now rnd req bdy s))))"
proof (cases bdy)
  case None
  then show ?thesis using assms by (simp add: register_def)
next
  case (Some d)
  show ?thesis
  proof (cases "user_findUnique_email (toLowerCase (rb_email d)) (users s)")
    case (Some u)
    then show ?thesis using assms \<open>bdy = Some d\<close> by (simp add: register_def)
  next
    case None
    show ?thesis
    proof (cases "case rb_username d of None \<Rightarrow> False
                  | Some un \<Rightarrow> un \<noteq> [] \<and> user_findUnique_username un (users s) \<noteq> None")
      case True
      then show ?thesis using assms \<open>bdy = Some d\<close> None by (simp add: register_def)
    next
      case free: False
      show ?thesis
      proof (cases "user_create (toLowerCase (rb_email d))
                      (bcrypt_hash (rb_password d) (saltRounds e))
                      (rb_firstName d) (rb_lastName d) (rb_username d) now (users s)")
        case c: None
        then show ?thesis using assms \<open>bdy = Some d\<close> None free by (simp add: register_def)
      next
        case c: (Some p)
        obtain usr us' where p: "p = (usr, us')" by (cases p)
        note m = user_create_member[OF c[unfolded p]]
        have "distinct (map u_email us')"
          using assms user_create_fresh[OF c[unfolded p]] m by simp
        then show ?thesis
          using \<open>bdy = Some d\<close> None free c p
          by (cases "emailVerification_create (u_id usr) rnd (u_email usr)
                       (now + 24 * 60 * 60 * 1000) (emailVerifications s)")
             (simp_all add: register_def Let_def)
      qed
    qed
  qed
qed

subsection \<open>Every reachable store satisfies the integrity constraints\<close>

lemma integrity_alt:
  "integrity s =
     (distinct (map ev_id (emailVerifications s))
      \<and> set (map ev_userId (emailVerifications s)) \<subseteq> set (map u_id (users s)))"
proof -
  have "(\<forall>v \<in> set (emailVerifications s). \<exists>u \<in> set (users s). u_id u = ev_userId v)
        = (ev_userId ` set (emailVerifications s) \<subseteq> u_id ` set (users s))"
    unfolding image_subset_iff image_iff by metis
  then show ?thesis
    unfolding integrity_def list_all_iff list_ex_iff set_map by (rule arg_cong)
qed

lemma fold_max_ge: "(a::nat) \<le> fold max xs a"
proof (induction xs arbitrary: a)
  case Nil
  show ?case by simp
next
  case (Cons x xs)
  have "a \<le> max x a" by simp
  also have "\<dots> \<le> fold max xs (max x a)" by (rule Cons.IH)
  finally show ?case by simp
qed

lemma fold_max_bound: "x \<in> set xs \<Longrightarrow> (x::nat) \<le> fold max xs a"
proof (induction xs arbitrary: a)
  case Nil
  then show ?case by simp
next
  case (Cons y ys)
  show ?case
  proof (cases "x = y")
    case True
    have "y \<le> max y a" by simp
    also have "\<dots> \<le> fold max ys (max y a)" by (rule fold_max_ge)
    finally show ?thesis using True by simp
  next
    case False
    then have "x \<in> set ys" using Cons.prems by simp
    then show ?thesis using Cons.IH by simp
  qed
qed

lemma fresh_id_new: "fresh_id ids \<notin> set ids"
proof
  assume "fresh_id ids \<in> set ids"
  then have "fresh_id ids \<le> fold max ids 0" by (rule fold_max_bound)
  then show False by (simp add: fresh_id_def)
qed

lemma user_update_ids:
  assumes "user_update i f us = Some us'" and "\<And>u. u_id (f u) = u_id u"
  shows "map u_id us' = map u_id us"
proof -
  have "us' = map (\<lambda>u. if u_id u = i then f u else u) us"
    using assms(1) by (simp add: user_update_def split: if_splits)
  then show ?thesis using assms(2) by (induction us arbitrary: us') simp_all
qed

lemma emailVerification_update_columns:
  assumes "emailVerification_update i (\<lambda>v. v\<lparr>ev_status := VERIFIED\<rparr>) vs = Some vs'"
  shows "map ev_id vs' = map ev_id vs \<and> map ev_userId vs' = map ev_userId vs"
proof -
  have "vs' = map (\<lambda>v. if ev_id v = i then v\<lparr>ev_status := VERIFIED\<rparr> else v) vs"
    using assms by (simp add: emailVerification_update_def split: if_splits)
  then show ?thesis by (induction vs arbitrary: vs') simp_all
qed

lemma login_frame:
  "emailVerifications (snd (login e now req bdy s)) = emailVerifications s
   \<and> map u_id (users (snd (login e now req bdy s))) = map u_id (users s)"
proof (cases bdy)
  case None
  then show ?thesis by (simp add: login_def)
next
  case (Some d)
  show ?thesis
  proof (cases "user_findUnique_email (toLowerCase (lb_email d)) (users s)")
    case None
    then show ?thesis using Some by (simp add: login_def)
  next
    case u: (Some usr)
    show ?thesis
    proof (cases "user_update (u_id usr) (\<lambda>u. u\<lparr>u_lastLoginAt := Some now\<rparr>) (users s)")
      case None
      then show ?thesis using Some u by (simp add: login_def)
    next
      case up: (Some us')
      have ids: "map u_id us' = map u_id (users s)"
        by (rule user_update_ids[OF up]) simp
      show ?thesis
        using Some u up ids
        by (cases "refreshToken_create (u_id usr) (snd (signedTokens e now (u_id usr)))
                     (expiresAt e now) (refreshTokens s)")
           (simp_all add: login_def generateTokens_def Let_def)
    qed
  qed
qed

lemma refreshToken_frame:
  "emailVerifications (snd (refreshToken e now bdy s)) = emailVerifications s
   \<and> users (snd (refreshToken e now bdy s)) = users s"
proof (cases bdy)
  case None
  then show ?thesis by (simp add: refreshToken_def)
next
  case (Some tok)
  show ?thesis
  proof (cases "jwt_verify tok (JWT_REFRESH_SECRET e) now")
    case (Inl err)
    then show ?thesis using Some by (simp add: refreshToken_def)
  next
    case (Inr p)
    show ?thesis
    proof (cases "refreshToken_findUnique_token tok (refreshTokens s)")
      case None
      then show ?thesis using Some Inr by (simp add: refreshToken_def)
    next
      case f: (Some row)
      show ?thesis
      proof (cases "refreshToken_update (rt_id row) (\<lambda>r. r\<lparr>rt_isRevoked := True\<rparr>)
                      (refreshTokens s)")
        case None
        then show ?thesis using Some Inr f by (simp add: refreshToken_def generateTokens_def Let_def)
      next
        case u: (Some rs1)
        show ?thesis
          using Some Inr f u
          by (cases "refreshToken_create (c_userId (p_claims p))
                        (snd (signedTokens e now (c_userId (p_claims p))))
                        (expiresAt e now) rs1")
             (simp_all add: refreshToken_def generateTokens_def Let_def)
      qed
    qed
  qed
qed

lemma logout_frame:
  "emailVerifications (snd (logout now bdy s)) = emailVerifications s
   \<and> users (snd (logout now bdy s)) = users s"
proof (cases bdy)
  case None
  then show ?thesis by (simp add: logout_def)
next
  case (Some f)
  then show ?thesis
    by (cases f) (simp_all add: logout_def logout_updateMany_def)
qed

lemma changePassword_frame:
  "emailVerifications (snd (changePassword e now uid bdy s)) = emailVerifications s
   \<and> map u_id (users (snd (changePassword e now uid bdy s))) = map u_id (users s)"
proof (cases bdy)
  case None
  then show ?thesis by (simp add: changePassword_def)
next
  case (Some d)
  show ?thesis
  proof (cases "user_findUnique_id uid (users s)")
    case None
    then show ?thesis using Some by (simp add: changePassword_def)
  next
    case u: (Some usr)
    show ?thesis
    proof (cases "user_update uid
                   (\<lambda>u. u\<lparr>u_password := bcrypt_hash (cp_newPassword d) (saltRounds e)\<rparr>)
                   (users s)")
      case None
      then show ?thesis using Some u by (simp add: changePassword_def)
    next
      case up: (Some us')
      have "map u_id us' = map u_id (users s)"
        by (rule user_update_ids[OF up]) simp
      then show ?thesis using Some u up by (simp add: changePassword_def)
    qed
  qed
qed

lemma verifyEmail_frame:
  "map ev_id (emailVerifications (snd (verifyEmail now tok s))) = map ev_id (emailVerifications s)
   \<and> map ev_userId (emailVerifications (snd (verifyEmail now tok s)))
       = map ev_userId (emailVerifications s)
   \<and> map u_id (users (snd (verifyEmail now tok s))) = map u_id (users s)"
proof (cases "emailVerification_findUnique_token tok (emailVerifications s)")
  case None
  then show ?thesis by (simp add: verifyEmail_def)
next
  case (Some v)
  show ?thesis
  proof (cases "user_update (ev_userId v) (\<lambda>u. u\<lparr>u_isEmailVerified := True\<rparr>) (users s)")
    case None
    then show ?thesis using Some by (simp add: verifyEmail_def)
  next
    case u: (Some us')
    have ids: "map u_id us' = map u_id (users s)"
      by (rule user_update_ids[OF u]) simp
    show ?thesis
    proof (cases "emailVerification_update (ev_id v) (\<lambda>v. v\<lparr>ev_status := VERIFIED\<rparr>)
                   (emailVerifications s)")
      case None
      then show ?thesis using Some u ids by (simp add: verifyEmail_def Let_def)
    next
      case c: (Some vs')
      note cols = emailVerification_update_columns[OF c]
      show ?thesis using Some u ids c cols by (simp add: verifyEmail_def Let_def)
    qed
  qed
qed

lemma integrity_ids:
  assumes "distinct (map ev_id (emailVerifications s'))"
    and "set (map ev_userId (emailVerifications s')) \<subseteq> set (map u_id (users s'))"
  shows "integrity s'"
  using assms by (simp only: integrity_alt simp_thms)

lemma ids_grow:
  fixes I O' U :: "nat list"
  assumes "distinct I" and "set O' \<subseteq> set U"
  shows "distinct (I @ [fresh_id I])" and "set (O' @ [x]) \<subseteq> set (U @ [x])"
    and "set O' \<subseteq> set (U @ [x])"
  using assms fresh_id_new[of I] by auto

lemma register_integrity:
  assumes "integrity s"
  shows "integrity (snd (register e now rnd req bdy s))"
proof (cases bdy)
  case None
  then show ?thesis using assms by (simp add: register_def)
next
  case (Some d)
  show ?thesis
  proof (cases "user_findUnique_email (toLowerCase (rb_email d)) (users s)")
    case (Some u)
    then show ?thesis using assms \<open>bdy = Some d\<close> by (simp add: register_def)
  next
    case None
    show ?thesis
    proof (cases "case rb_username d of None \<Rightarrow> False
                  | Some un \<Rightarrow> un \<noteq> [] \<and> user_findUnique_username un (users s) \<noteq> None")
      case True
      then show ?thesis using assms \<open>bdy = Some d\<close> None by (simp add: register_def)
    next
      case free: False
      show ?thesis
      proof (cases "user_create (toLowerCase (rb_email d))
                      (bcrypt_hash (rb_password d) (saltRounds e))
                      (rb_firstName d) (rb_lastName d) (rb_username d) now (users s)")
        case c: None
        then show ?thesis using assms \<open>bdy = Some d\<close> None free by (simp add: register_def)
      next
        case c: (Some p)
        obtain usr us' where p: "p = (usr, us')" by (cases p)
        have us': "us' = users s @ [usr]"
          using user_create_member[OF c[unfolded p]] by simp
        have d0: "distinct (map ev_id (emailVerifications s))"
          and o0: "set (map ev_userId (emailVerifications s)) \<subseteq> set (map u_id (users s))"
          using assms by (simp_all only: integrity_alt)
        show ?thesis
        proof (cases "emailVerification_create (u_id usr) rnd (u_email usr)
                       (now + 24 * 60 * 60 * 1000) (emailVerifications s)")
          case v: None
          have "integrity (s\<lparr>users := us'\<rparr>)"
          proof (rule integrity_ids)
            show "distinct (map ev_id (emailVerifications (s\<lparr>users := us'\<rparr>)))"
              using d0 by simp
            show "set (map ev_userId (emailVerifications (s\<lparr>users := us'\<rparr>)))
                    \<subseteq> set (map u_id (users (s\<lparr>users := us'\<rparr>)))"
              using ids_grow(3)[OF d0 o0, of "u_id usr"] by (simp add: us')
          qed
          then show ?thesis
            using \<open>bdy = Some d\<close> None free c p v by (simp add: register_def Let_def)
        next
          case v: (Some vs')
          have vs': "vs' = emailVerifications s @
              [\<lparr>ev_id = fresh_id (map ev_id (emailVerifications s)), ev_userId = u_id usr,
                ev_token = rnd, ev_email = u_email usr, ev_status = PENDING,
                ev_expiresAt = now + 24 * 60 * 60 * 1000\<rparr>]"
            using v by (simp add: emailVerification_create_def split: if_splits)
          have "integrity (logLoginAttempt (UserId (u_id usr)) req False
                       (Some ''REGISTRATION_PENDING_VERIFICATION'')
                       (s\<lparr>users := us', emailVerifications := vs'\<rparr>))"
          proof (rule integrity_ids)
            show "distinct (map ev_id (emailVerifications
                     (logLoginAttempt (UserId (u_id usr)) req False
                       (Some ''REGISTRATION_PENDING_VERIFICATION'')
                       (s\<lparr>users := us', emailVerifications := vs'\<rparr>))))"
              using ids_grow(1)[OF d0 o0] by (simp add: vs')
            show "set (map ev_userId (emailVerifications
                     (logLoginAttempt (UserId (u_id usr)) req False
                       (Some ''REGISTRATION_PENDING_VERIFICATION'')
                       (s\<lparr>users := us', emailVerifications := vs'\<rparr>))))
                  \<subseteq> set (map u_id (users
                     (logLoginAttempt (UserId (u_id usr)) req False
                       (Some ''REGISTRATION_PENDING_VERIFICATION'')
                       (s\<lparr>users := us', emailVerifications := vs'\<rparr>))))"
              using ids_grow(2)[OF d0 o0, of "u_id usr"] by (simp add: vs' us')
          qed
          then show ?thesis
            using \<open>bdy = Some d\<close> None free c p v by (simp add: register_def Let_def)
        qed
      qed
    qed
  qed
qed

lemma step_integrity:
  assumes "integrity s"
  shows "integrity (step e a s)"
proof (cases a)
  case (Register now rnd req bdy)
  then show ?thesis using register_integrity[OF assms] by simp
next
  case (Login now req bdy)
  then show ?thesis using assms login_frame[of e now req bdy s] by (simp add: integrity_alt)
next
  case (Refresh now bdy)
  then show ?thesis using assms refreshToken_frame[of e now bdy s] by (simp add: integrity_alt)
next
  case (Logout now bdy)
  then show ?thesis using assms logout_frame[of now bdy s] by (simp add: integrity_alt)
next
  case (VerifyEmail now tok)
  then show ?thesis using assms verifyEmail_frame[of now tok s] by (simp add: integrity_alt)
next
  case (ChangePassword now uid bdy)
  then show ?thesis
    using assms changePassword_frame[of e now uid bdy s] by (simp add: integrity_alt)
qed

lemma run_integrity:
  assumes "integrity s"
  shows "integrity (run e ops s)"
  using assms unfolding run_def
  by (induction ops arbitrary: s) (simp_all add: step_integrity)

lemma reachable_integrity: "integrity (run e ops empty_store)"
  by (rule run_integrity) (simp add: integrity_def empty_store_def)

section \<open>Refresh-token rotation\<close>

subsection \<open>The expiry date and the signed strings\<close>

lemma expiresAt_fixed_offset:
  assumes "\<And>t b. TZ e t b = c"
  shows "expiresAt e now = int now + 7 * msPerDay"
  by (simp add: expiresAt_def UTC_def LocalTime_def assms)

lemma expiresAt_offset_change:
  assumes "TZ e (int now) True = a" and "TZ e (int now + a + 7 * msPerDay) False = b"
  shows "expiresAt e now = int now + 7 * msPerDay + a - b"
  using assms by (simp add: expiresAt_def UTC_def LocalTime_def)

text \<open>
  An instance: a row written on 2026-03-05T12:00:00Z expires on 2026-03-12T12:00:00Z in a
  zone with a fixed offset, and an hour earlier in \<open>demo_zone\<close>.
\<close>

lemma demo_expiresAt:
  "expiresAt demo_env 1772712000000 = 1773316800000
   \<and> expiresAt demo_env_dst 1772712000000 = 1773313200000"
  by (simp add: demo_env_dst_def demo_env_def demo_zone_def expiresAt_def LocalTime_def
        UTC_def msPerDay_def)

lemma signedTokens_same_second:
  assumes "now2 div 1000 = now1 div 1000"
  shows "signedTokens e now2 uid = signedTokens e now1 uid"
  using assms by (simp add: signedTokens_def jwt_sign_def)

subsection \<open>A rotation that signs a stored string\<close>

lemma refreshToken_collision:
  assumes dec: "jwt_verify t (JWT_REFRESH_SECRET e) now = Inr p"
    and row: "refreshToken_findUnique_token t (refreshTokens s) = Some row"
    and live: "\<not> rt_isRevoked row" "\<not> rt_expiresAt row < int now"
    and dup: "snd (signedTokens e now (c_userId (p_claims p)))
                \<in> rt_token ` set (refreshTokens s)"
    and sec: "JWT_SECRET e \<noteq> []"
  shows "fst (refreshToken e now (Some t) s) = internalError now"
    and "revoked t (refreshTokens (snd (refreshToken e now (Some t) s)))"
    and "map rt_token (refreshTokens (snd (refreshToken e now (Some t) s)))
           = map rt_token (refreshTokens s)"
proof -
  let ?new = "snd (signedTokens e now (c_userId (p_claims p)))"
  obtain rs1 where rs1:
    "refreshToken_update (rt_id row) (\<lambda>r. r\<lparr>rt_isRevoked := True\<rparr>) (refreshTokens s) = Some rs1"
    using update_defined[OF row] by blast
  have tok: "map rt_token rs1 = map rt_token (refreshTokens s)"
    by (rule update_tokens[OF rs1])
  have "set (map rt_token rs1) = set (map rt_token (refreshTokens s))"
    using tok by simp
  then have "?new \<in> rt_token ` set rs1"
    using dup by simp
  then have "\<not> (\<exists>rs2. refreshToken_create (c_userId (p_claims p)) ?new (expiresAt e now) rs1
                      = Some rs2)"
    by (simp add: create_defined)
  then have none: "refreshToken_create (c_userId (p_claims p)) ?new (expiresAt e now) rs1 = None"
    by simp
  have gen: "generateTokens e now (c_userId (p_claims p))
               = Some (signedTokens e now (c_userId (p_claims p)))"
    using sec jwt_verify_secret[OF dec] by (simp add: generateTokens_Some)
  have run: "refreshToken e now (Some t) s = (internalError now, s\<lparr>refreshTokens := rs1\<rparr>)"
    using dec row live gen rs1 none by (simp add: refreshToken_def Let_def)
  have "refreshToken_findUnique_token t rs1 = Some (row\<lparr>rt_isRevoked := True\<rparr>)"
    using update_find[OF rs1, of t] row by simp
  then have rev: "revoked t rs1"
    by (simp add: revoked_def)
  show "fst (refreshToken e now (Some t) s) = internalError now"
    by (simp add: run)
  show "revoked t (refreshTokens (snd (refreshToken e now (Some t) s)))"
    using rev by (simp add: run)
  show "map rt_token (refreshTokens (snd (refreshToken e now (Some t) s)))
           = map rt_token (refreshTokens s)"
    using tok by (simp add: run)
qed

subsection \<open>The store after a rotation\<close>

lemma refreshToken_ok_rows:
  assumes run: "refreshToken e now1 (Some t) s = (r1, s1)" and ok: "status r1 = 200"
    and dec: "jwt_verify t (JWT_REFRESH_SECRET e) now1 = Inr p"
  shows "data (body r1) =
           TokensData (fst (signedTokens e now1 (c_userId (p_claims p))))
                      (snd (signedTokens e now1 (c_userId (p_claims p))))"
    and "revoked t (refreshTokens s1)"
    and "\<exists>i. refreshToken_findUnique_token (snd (signedTokens e now1 (c_userId (p_claims p))))
               (refreshTokens s1) =
             Some \<lparr>rt_id = i, rt_userId = c_userId (p_claims p),
                   rt_token = snd (signedTokens e now1 (c_userId (p_claims p))),
                   rt_isRevoked = False, rt_expiresAt = expiresAt e now1\<rparr>"
    and "JWT_SECRET e \<noteq> []" and "JWT_REFRESH_SECRET e \<noteq> []"
proof -
  from run ok obtain p' row rs1 rs2 where
    p': "jwt_verify t (JWT_REFRESH_SECRET e) now1 = Inr p'" and
    row: "refreshToken_findUnique_token t (refreshTokens s) = Some row" and
    sec: "JWT_SECRET e \<noteq> []" "JWT_REFRESH_SECRET e \<noteq> []" and
    rs1: "refreshToken_update (rt_id row) (\<lambda>r. r\<lparr>rt_isRevoked := True\<rparr>) (refreshTokens s)
            = Some rs1" and
    rs2': "refreshToken_create (c_userId (p_claims p'))
            (snd (signedTokens e now1 (c_userId (p_claims p')))) (expiresAt e now1) rs1
            = Some rs2" and
    s1: "s1 = s\<lparr>refreshTokens := rs2\<rparr>" and
    r1': "r1 = json 200 (createSuccessResponse
           (TokensData (fst (signedTokens e now1 (c_userId (p_claims p'))))
                       (snd (signedTokens e now1 (c_userId (p_claims p')))))
           ''Tokens refreshed successfully'' (Literal ''TOKEN_REFRESH_SUCCESS'') now1)"
    by (rule refreshToken_ok_cases)
  show "JWT_SECRET e \<noteq> []" and "JWT_REFRESH_SECRET e \<noteq> []"
    by (rule sec)+
  have pp: "p' = p" using p' dec by simp
  note rs2 = rs2'[unfolded pp] and r1 = r1'[unfolded pp]
  let ?uid = "c_userId (p_claims p)"
  let ?new = "snd (signedTokens e now1 ?uid)"
  show "data (body r1) = TokensData (fst (signedTokens e now1 ?uid)) ?new"
    by (simp add: r1 createSuccessResponse_def)
  have "refreshToken_findUnique_token t rs1 = Some (row\<lparr>rt_isRevoked := True\<rparr>)"
    using update_find[OF rs1, of t] row by simp
  then have "refreshToken_findUnique_token t (refreshTokens s1)
               = Some (row\<lparr>rt_isRevoked := True\<rparr>)"
    using create_find_old[OF rs2] s1 by simp
  then show "revoked t (refreshTokens s1)"
    by (simp add: revoked_def)
  have "refreshToken_findUnique_token ?new (refreshTokens s1) =
         Some \<lparr>rt_id = fresh_id (map rt_id rs1), rt_userId = ?uid, rt_token = ?new,
               rt_isRevoked = False, rt_expiresAt = expiresAt e now1\<rparr>"
    using create_find_new[OF rs2] s1 by simp
  then show "\<exists>i. refreshToken_findUnique_token ?new (refreshTokens s1) =
             Some \<lparr>rt_id = i, rt_userId = ?uid, rt_token = ?new,
                   rt_isRevoked = False, rt_expiresAt = expiresAt e now1\<rparr>"
    by blast
qed

text \<open>
  The part of the rotation that holds without exception: a string that has been redeemed
  with status 200 is refused ever after, whatever requests come in between.
\<close>

lemma refresh_old_token_rejected:
  assumes run: "refreshToken e now1 (Some t) s = (r1, s1)" and ok: "status r1 = 200"
  shows "status (fst (refreshToken e now2 (Some t) (run e ops s1))) = 401
       \<and> code (body (fst (refreshToken e now2 (Some t) (run e ops s1))))
           = ERROR_CODES AUTH_TOKEN_EXPIRED
       \<and> snd (refreshToken e now2 (Some t) (run e ops s1)) = run e ops s1"
proof -
  obtain p where dec: "jwt_verify t (JWT_REFRESH_SECRET e) now1 = Inr p"
    using run ok by (rule refreshToken_ok_cases)
  have "revoked t (refreshTokens s1)"
    by (rule refreshToken_ok_rows(2)[OF run ok dec])
  then have "revoked t (refreshTokens (run e ops s1))"
    by (rule run_revoked)
  then show ?thesis
    by (rule revoked_rejected)
qed

text \<open>
  The new string is accepted until its row expires, seven calendar days after the
  rotation, provided that the rotation which redeems it signs a string that is not
  stored.
\<close>

lemma refresh_new_token_accepted:
  assumes run: "refreshToken e now1 (Some t) s = (r1, s1)" and ok: "status r1 = 200"
    and dec: "jwt_verify t (JWT_REFRESH_SECRET e) now1 = Inr p"
    and fresh: "snd (signedTokens e now2 (c_userId (p_claims p)))
                  \<notin> rt_token ` set (refreshTokens s1)"
  shows "status (fst (refreshToken e now2
                   (Some (snd (signedTokens e now1 (c_userId (p_claims p))))) s1))
         = (if expiresAt e now1 < int now2 then 401 else 200)"
proof -
  let ?uid = "c_userId (p_claims p)"
  let ?new = "snd (signedTokens e now1 ?uid)"
  obtain i where new: "refreshToken_findUnique_token ?new (refreshTokens s1) =
         Some \<lparr>rt_id = i, rt_userId = ?uid, rt_token = ?new,
               rt_isRevoked = False, rt_expiresAt = expiresAt e now1\<rparr>"
    using refreshToken_ok_rows(3)[OF run ok dec] by blast
  note sec = refreshToken_ok_rows(4)[OF run ok dec]
    and rsec = refreshToken_ok_rows(5)[OF run ok dec]
  note dec2 = signedTokens_verify[OF rsec, of now1 ?uid now2]
  show ?thesis
  proof (cases "expiresAt e now1 < int now2")
    case True
    then show ?thesis
      using new by (simp add: refreshToken_def dec2)
  next
    case False
    have "status (fst (refreshToken e now2 (Some ?new) s1)) = 200"
      by (rule refreshToken_accepts[OF dec2 new]) (use False fresh sec in simp_all)
    then show ?thesis using False by simp
  qed
qed

text \<open>
  C1. The refresh token issued by a rotation is not accepted when it is presented in the
  second in which it was signed. \<open>generateTokens\<close> signs the user identifier and the
  second of issuance only, so the rotation that redeems the new string signs the very
  same string: the handler revokes the presented row, the insert of the new row
  violates the uniqueness of the token column, and the answer is 500 without tokens.
  From then on the new string and the old one are both refused with 401, whatever
  requests follow: the session cannot be continued.
\<close>

theorem refresh_new_token_same_second:
  assumes run: "refreshToken e now1 (Some t) s = (r1, s1)" and ok: "status r1 = 200"
    and dec: "jwt_verify t (JWT_REFRESH_SECRET e) now1 = Inr p"
    and sec: "now2 div 1000 = now1 div 1000" and live: "int now2 \<le> expiresAt e now1"
    and run2: "refreshToken e now2
                 (Some (snd (signedTokens e now1 (c_userId (p_claims p))))) s1 = (r2, s2)"
  shows "data (body r1) =
           TokensData (fst (signedTokens e now1 (c_userId (p_claims p))))
                      (snd (signedTokens e now1 (c_userId (p_claims p))))
       \<and> r2 = internalError now2
       \<and> (\<forall>ops now3.
             status (fst (refreshToken e now3
                       (Some (snd (signedTokens e now1 (c_userId (p_claims p)))))
                       (run e ops s2))) = 401
           \<and> status (fst (refreshToken e now3 (Some t) (run e ops s2))) = 401)"
proof -
  let ?uid = "c_userId (p_claims p)"
  let ?new = "snd (signedTokens e now1 ?uid)"
  note rows = refreshToken_ok_rows[OF run ok dec]
  obtain i where new: "refreshToken_findUnique_token ?new (refreshTokens s1) =
         Some \<lparr>rt_id = i, rt_userId = ?uid, rt_token = ?new,
               rt_isRevoked = False, rt_expiresAt = expiresAt e now1\<rparr>"
    using rows(3) by blast
  let ?row = "\<lparr>rt_id = i, rt_userId = ?uid, rt_token = ?new,
               rt_isRevoked = False, rt_expiresAt = expiresAt e now1\<rparr>"
  have dec2: "jwt_verify ?new (JWT_REFRESH_SECRET e) now2 =
     Inr \<lparr>p_claims = \<lparr>c_userId = ?uid, c_email = None, c_role = None, c_sessionId = None,
                        c_type = None\<rparr>,
          p_iat = now1 div 1000, p_exp = None\<rparr>"
    by (rule signedTokens_verify[OF rows(5)])
  have "?new \<in> rt_token ` set (refreshTokens s1)"
    using find_SomeD[OF new[unfolded refreshToken_findUnique_token_def]] by (metis imageI)
  then have dup: "snd (signedTokens e now2
                    (c_userId (p_claims \<lparr>p_claims = \<lparr>c_userId = ?uid, c_email = None,
                        c_role = None, c_sessionId = None, c_type = None\<rparr>,
                      p_iat = now1 div 1000, p_exp = None\<rparr>)))
                  \<in> rt_token ` set (refreshTokens s1)"
    by (simp add: signedTokens_same_second[OF sec])
  have l1: "\<not> rt_isRevoked ?row" and l2: "\<not> rt_expiresAt ?row < int now2"
    using live by simp_all
  note col = refreshToken_collision[OF dec2 new l1 l2 dup rows(4)]
  have r2: "r2 = internalError now2"
    using col(1) run2 by simp
  have s2: "s2 = snd (refreshToken e now2 (Some ?new) s1)"
    using run2 by simp
  have newrev: "revoked ?new (refreshTokens s2)"
    unfolding s2 by (rule col(2))
  have "revoked t (refreshTokens s1)"
    by (rule rows(2))
  then have oldrev: "revoked t (refreshTokens s2)"
    unfolding s2 by (rule refreshToken_revoked)
  have a: "status (fst (refreshToken e now3 (Some ?new) (run e ops s2))) = 401
         \<and> status (fst (refreshToken e now3 (Some t) (run e ops s2))) = 401" for ops now3
    using revoked_rejected[OF run_revoked[OF newrev], of e now3 e ops]
          revoked_rejected[OF run_revoked[OF oldrev], of e now3 e ops]
    by simp
  have a': "\<forall>ops now3.
             status (fst (refreshToken e now3 (Some ?new) (run e ops s2))) = 401
           \<and> status (fst (refreshToken e now3 (Some t) (run e ops s2))) = 401"
    by (intro allI) (rule a)
  show ?thesis
    by (intro conjI) (rule rows(1), rule r2, rule a')
qed

text \<open>
  An instance: the token stored at time 0 is redeemed at time 5000. The new token is
  presented at time 5999: the answer is 500, and at time 9000 neither string is
  accepted any more.
\<close>

theorem refresh_new_token_same_second_witness:
  "refreshToken demo_env 5000 (Some (demo_token 0)) demo_store =
     (json 200 (createSuccessResponse
        (TokensData (fst (signedTokens demo_env 5000 1)) (demo_token 5000))
        ''Tokens refreshed successfully'' (Literal ''TOKEN_REFRESH_SUCCESS'') 5000),
      demo_rotated)
   \<and> fst (refreshToken demo_env 5999 (Some (demo_token 5000)) demo_rotated) = internalError 5999
   \<and> status (fst (refreshToken demo_env 9000 (Some (demo_token 5000))
               (snd (refreshToken demo_env 5999 (Some (demo_token 5000)) demo_rotated)))) = 401
   \<and> status (fst (refreshToken demo_env 9000 (Some (demo_token 0))
               (snd (refreshToken demo_env 5999 (Some (demo_token 5000)) demo_rotated)))) = 401"
proof -
  have dec: "jwt_verify (demo_token 0) (JWT_REFRESH_SECRET demo_env) 5000 =
               Inr \<lparr>p_claims = \<lparr>c_userId = 1, c_email = None, c_role = None,
                                  c_sessionId = None, c_type = None\<rparr>,
                    p_iat = 0, p_exp = None\<rparr>"
    by (simp add: demo_defs refresh_eval)
  have ok: "status (json 200 (createSuccessResponse
        (TokensData (fst (signedTokens demo_env 5000 1)) (demo_token 5000))
        ''Tokens refreshed successfully'' (Literal ''TOKEN_REFRESH_SUCCESS'') 5000)) = 200"
    by simp
  have sec: "(5999::nat) div 1000 = 5000 div 1000"
    by simp
  have live: "int 5999 \<le> expiresAt demo_env 5000"
    by (simp add: demo_env_def expiresAt_def LocalTime_def UTC_def msPerDay_def)
  have run2: "refreshToken demo_env 5999
      (Some (snd (signedTokens demo_env 5000
         (c_userId (p_claims \<lparr>p_claims = \<lparr>c_userId = 1, c_email = None, c_role = None,
                                  c_sessionId = None, c_type = None\<rparr>,
                    p_iat = 0, p_exp = None\<rparr>))))) demo_rotated =
      (fst (refreshToken demo_env 5999 (Some (demo_token 5000)) demo_rotated),
       snd (refreshToken demo_env 5999 (Some (demo_token 5000)) demo_rotated))"
    by (simp add: demo_token_def)
  note th = refresh_new_token_same_second[OF demo_refresh ok dec sec live run2]
  note later = conjunct2[OF conjunct2[OF th], THEN spec, of "[]", THEN spec, of 9000]
  have new: "status (fst (refreshToken demo_env 9000 (Some (demo_token 5000))
               (snd (refreshToken demo_env 5999 (Some (demo_token 5000)) demo_rotated)))) = 401"
    using conjunct1[OF later] by (simp add: run_def demo_token_def)
  have old: "status (fst (refreshToken demo_env 9000 (Some (demo_token 0))
               (snd (refreshToken demo_env 5999 (Some (demo_token 5000)) demo_rotated)))) = 401"
    using conjunct2[OF later] by (simp add: run_def)
  show ?thesis
    by (intro conjI) (rule demo_refresh, rule conjunct1[OF conjunct2[OF th]], rule new, rule old)
qed

text \<open>
  For comparison, on the same store: presented four seconds after the rotation the new
  token is accepted, and one millisecond after the seven days of its row it is refused.
\<close>

lemma demo_new_token_later:
  "status (fst (refreshToken demo_env 9000 (Some (demo_token 5000)) demo_rotated)) = 200
   \<and> status (fst (refreshToken demo_env 604805001 (Some (demo_token 5000)) demo_rotated)) = 401"
  by (simp add: demo_defs refresh_eval response_defs)

section \<open>Login\<close>

lemmas login_eval = login_def user_findUnique_email_def user_update_def toLowerCase_def
  lower_char_def bcrypt_compare_def logLoginAttempt_def js_or_def

lemma login_ok_cases:
  assumes run: "login e now req bdy s = (r, s')" and ok: "status r = 200"
  obtains d u us' rs' where
    "bdy = Some d"
    "user_findUnique_email (toLowerCase (lb_email d)) (users s) = Some u"
    "u_isActive u" "bcrypt_compare (lb_password d) (u_password u)"
    "JWT_SECRET e \<noteq> []" "JWT_REFRESH_SECRET e \<noteq> []"
    "user_update (u_id u) (\<lambda>u. u\<lparr>u_lastLoginAt := Some now\<rparr>) (users s) = Some us'"
    "refreshToken_create (u_id u) (snd (signedTokens e now (u_id u))) (expiresAt e now)
       (refreshTokens s) = Some rs'"
    "s' = logLoginAttempt (UserId (u_id u)) req True None
            (s\<lparr>users := us', refreshTokens := rs'\<rparr>)"
    "data (body r) = LoginData
        \<lparr>ur_id = u_id u, ur_email = u_email u, ur_firstName = u_firstName u,
         ur_lastName = u_lastName u, ur_username = u_username u, ur_avatar = u_avatar u,
         ur_role = u_role u, ur_isEmailVerified = u_isEmailVerified u,
         ur_lastLoginAt = u_lastLoginAt u\<rparr>
        (fst (signedTokens e now (u_id u))) (snd (signedTokens e now (u_id u)))"
proof -
  obtain d where d: "bdy = Some d"
    using run ok by (cases bdy) (auto simp: login_def)
  obtain u where u: "user_findUnique_email (toLowerCase (lb_email d)) (users s) = Some u"
    using run ok d
    by (cases "user_findUnique_email (toLowerCase (lb_email d)) (users s)")
       (auto simp: login_def)
  have act: "u_isActive u" "bcrypt_compare (lb_password d) (u_password u)"
    using run ok d u by (auto simp: login_def split: if_splits)
  obtain us' where us':
    "user_update (u_id u) (\<lambda>u. u\<lparr>u_lastLoginAt := Some now\<rparr>) (users s) = Some us'"
    using run ok d u act
    by (cases "user_update (u_id u) (\<lambda>u. u\<lparr>u_lastLoginAt := Some now\<rparr>) (users s)")
       (auto simp: login_def)
  have gen: "generateTokens e now (u_id u) = Some (signedTokens e now (u_id u))"
    using run ok d u act us'
    by (cases "generateTokens e now (u_id u)") (auto simp: login_def generateTokens_Some)
  then have sec: "JWT_SECRET e \<noteq> []" "JWT_REFRESH_SECRET e \<noteq> []"
    by (simp_all add: generateTokens_Some)
  obtain rs' where rs':
    "refreshToken_create (u_id u) (snd (signedTokens e now (u_id u))) (expiresAt e now)
       (refreshTokens s) = Some rs'"
    using run ok d u act us' gen
    by (cases "refreshToken_create (u_id u) (snd (signedTokens e now (u_id u)))
                 (expiresAt e now) (refreshTokens s)")
       (auto simp: login_def Let_def)
  have "s' = logLoginAttempt (UserId (u_id u)) req True None
               (s\<lparr>users := us', refreshTokens := rs'\<rparr>)"
    and "data (body r) = LoginData
        \<lparr>ur_id = u_id u, ur_email = u_email u, ur_firstName = u_firstName u,
         ur_lastName = u_lastName u, ur_username = u_username u, ur_avatar = u_avatar u,
         ur_role = u_role u, ur_isEmailVerified = u_isEmailVerified u,
         ur_lastLoginAt = u_lastLoginAt u\<rparr>
        (fst (signedTokens e now (u_id u))) (snd (signedTokens e now (u_id u)))"
    using run d u act us' gen rs' by (auto simp: login_def Let_def createSuccessResponse_def)
  with d u act sec us' rs' show ?thesis using that by blast
qed

lemma login_unknown:
  assumes "user_findUnique_email (toLowerCase (lb_email d)) (users s) = None"
  shows "login e now req (Some d) s =
    (json 401 (createErrorResponse ''Invalid credentials''
       (ERROR_CODES AUTH_INVALID_CREDENTIALS) now), s)"
  using assms by (simp add: login_def logLoginAttempt_def)

lemma login_deactivated:
  assumes "user_findUnique_email (toLowerCase (lb_email d)) (users s) = Some u"
    and "\<not> u_isActive u"
  shows "login e now req (Some d) s =
    (json 403 (createErrorResponse ''Account is deactivated''
       (ERROR_CODES AUTH_ACCOUNT_DEACTIVATED) now),
     logLoginAttempt (UserId (u_id u)) req False (Some ''ACCOUNT_DEACTIVATED'') s)"
  using assms by (simp add: login_def)

lemma login_wrong_password:
  assumes "user_findUnique_email (toLowerCase (lb_email d)) (users s) = Some u"
    and "u_isActive u" and "\<not> bcrypt_compare (lb_password d) (u_password u)"
  shows "login e now req (Some d) s =
    (json 401 (createErrorResponse ''Invalid credentials''
       (ERROR_CODES AUTH_INVALID_CREDENTIALS) now),
     logLoginAttempt (UserId (u_id u)) req False (Some ''INVALID_PASSWORD'') s)"
  using assms by (simp add: login_def)

lemma login_wrong_password_step:
  assumes "user_findUnique_email (toLowerCase (lb_email d)) (users s) = Some u"
    and "u_isActive u" and "\<not> bcrypt_compare (lb_password d) (u_password u)"
  shows "status (fst (login e now req (Some d) s)) = 401
       \<and> users (snd (login e now req (Some d) s)) = users s
       \<and> (\<exists>row. loginLogs (snd (login e now req (Some d) s)) = loginLogs s @ [row]
             \<and> ll_userId row = u_id u \<and> ll_isSuccess row = False
             \<and> ll_failReason row = Some ''INVALID_PASSWORD'')"
  using login_wrong_password[OF assms, of e now req]
        logLoginAttempt_row[of "u_id u" req False "Some ''INVALID_PASSWORD''" s]
  by simp

lemma three_wrong_logins:
  assumes u: "user_findUnique_email (toLowerCase (lb_email d)) (users s) = Some u"
    and act: "u_isActive u" and pw: "\<not> bcrypt_compare (lb_password d) (u_password u)"
  shows "\<exists>a b c.
           loginLogs (snd (login e n3 q3 (Some d) (snd (login e n2 q2 (Some d)
                       (snd (login e n1 q1 (Some d) s))))))
             = loginLogs s @ [a, b, c]
         \<and> ll_isSuccess a = False \<and> ll_isSuccess b = False \<and> ll_isSuccess c = False
         \<and> status (fst (login e n1 q1 (Some d) s)) = 401
         \<and> status (fst (login e n2 q2 (Some d) (snd (login e n1 q1 (Some d) s)))) = 401
         \<and> status (fst (login e n3 q3 (Some d) (snd (login e n2 q2 (Some d)
                       (snd (login e n1 q1 (Some d) s)))))) = 401"
proof -
  let ?s1 = "snd (login e n1 q1 (Some d) s)"
  let ?s2 = "snd (login e n2 q2 (Some d) ?s1)"
  let ?s3 = "snd (login e n3 q3 (Some d) ?s2)"
  note st1 = login_wrong_password_step[OF u act pw, of e n1 q1]
  then obtain a where a: "loginLogs ?s1 = loginLogs s @ [a]" "ll_isSuccess a = False" by blast
  have u1: "user_findUnique_email (toLowerCase (lb_email d)) (users ?s1) = Some u"
    using st1 u by simp
  note st2 = login_wrong_password_step[OF u1 act pw, of e n2 q2]
  then obtain b where b: "loginLogs ?s2 = loginLogs ?s1 @ [b]" "ll_isSuccess b = False" by blast
  have u2: "user_findUnique_email (toLowerCase (lb_email d)) (users ?s2) = Some u"
    using st2 u1 by simp
  note st3 = login_wrong_password_step[OF u2 act pw, of e n3 q3]
  then obtain c where c: "loginLogs ?s3 = loginLogs ?s2 @ [c]" "ll_isSuccess c = False" by blast
  have "loginLogs ?s3 = loginLogs s @ [a, b, c]" using a b c by simp
  then show ?thesis using a b c st1 st2 st3 by blast
qed

lemma login_update_defined:
  assumes "user_findUnique_email em us = Some u"
  shows "user_update (u_id u) f us = Some (map (\<lambda>x. if u_id x = u_id u then f x else x) us)"
  using find_SomeD[OF assms[unfolded user_findUnique_email_def]]
  by (auto simp: user_update_def list_ex_iff)

lemma login_right_password:
  assumes u: "user_findUnique_email (toLowerCase (lb_email d)) (users s) = Some u"
    and act: "u_isActive u" and pw: "bcrypt_compare (lb_password d) (u_password u)"
    and fresh: "snd (signedTokens e now (u_id u)) \<notin> rt_token ` set (refreshTokens s)"
    and sec: "JWT_SECRET e \<noteq> []" "JWT_REFRESH_SECRET e \<noteq> []"
  shows "status (fst (login e now req (Some d) s)) = 200"
    and "snd (login e now req (Some d) s) =
           logLoginAttempt (UserId (u_id u)) req True None
             (s\<lparr>users := map (\<lambda>x. if u_id x = u_id u then x\<lparr>u_lastLoginAt := Some now\<rparr> else x)
                            (users s),
                refreshTokens := refreshTokens s @
                  [\<lparr>rt_id = fresh_id (map rt_id (refreshTokens s)), rt_userId = u_id u,
                    rt_token = snd (signedTokens e now (u_id u)), rt_isRevoked = False,
                    rt_expiresAt = expiresAt e now\<rparr>]\<rparr>)"
proof -
  note up = login_update_defined[OF u, of "\<lambda>u. u\<lparr>u_lastLoginAt := Some now\<rparr>"]
  have gen: "generateTokens e now (u_id u) = Some (signedTokens e now (u_id u))"
    using sec by (simp add: generateTokens_Some)
  have c: "refreshToken_create (u_id u) (snd (signedTokens e now (u_id u))) (expiresAt e now)
             (refreshTokens s) =
           Some (refreshTokens s @
                  [\<lparr>rt_id = fresh_id (map rt_id (refreshTokens s)), rt_userId = u_id u,
                    rt_token = snd (signedTokens e now (u_id u)), rt_isRevoked = False,
                    rt_expiresAt = expiresAt e now\<rparr>])"
    using fresh by (simp add: refreshToken_create_def list_ex_iff) (metis imageI)
  show "status (fst (login e now req (Some d) s)) = 200"
    using u act pw up gen c by (simp add: login_def Let_def)
  show "snd (login e now req (Some d) s) =
           logLoginAttempt (UserId (u_id u)) req True None
             (s\<lparr>users := map (\<lambda>x. if u_id x = u_id u then x\<lparr>u_lastLoginAt := Some now\<rparr> else x)
                            (users s),
                refreshTokens := refreshTokens s @
                  [\<lparr>rt_id = fresh_id (map rt_id (refreshTokens s)), rt_userId = u_id u,
                    rt_token = snd (signedTokens e now (u_id u)), rt_isRevoked = False,
                    rt_expiresAt = expiresAt e now\<rparr>]\<rparr>)"
    using u act pw up gen c by (simp add: login_def Let_def)
qed

lemma login_token_stored:
  assumes u: "user_findUnique_email (toLowerCase (lb_email d)) (users s) = Some u"
    and act: "u_isActive u" and pw: "bcrypt_compare (lb_password d) (u_password u)"
    and dup: "snd (signedTokens e now (u_id u)) \<in> rt_token ` set (refreshTokens s)"
  shows "login e now req (Some d) s =
           (internalError now,
            s\<lparr>users := map (\<lambda>x. if u_id x = u_id u then x\<lparr>u_lastLoginAt := Some now\<rparr> else x)
                           (users s)\<rparr>)"
proof -
  note up = login_update_defined[OF u, of "\<lambda>u. u\<lparr>u_lastLoginAt := Some now\<rparr>"]
  have c: "refreshToken_create (u_id u) (snd (signedTokens e now (u_id u))) (expiresAt e now)
             (refreshTokens s) = None"
    using dup by (auto simp: refreshToken_create_def list_ex_iff)
  show ?thesis
    using u act pw up c by (simp add: login_def generateTokens_def Let_def)
qed

lemma login_unsigned:
  assumes u: "user_findUnique_email (toLowerCase (lb_email d)) (users s) = Some u"
    and act: "u_isActive u" and pw: "bcrypt_compare (lb_password d) (u_password u)"
    and gen: "generateTokens e now (u_id u) = None"
  shows "login e now req (Some d) s =
           (internalError now,
            s\<lparr>users := map (\<lambda>x. if u_id x = u_id u then x\<lparr>u_lastLoginAt := Some now\<rparr> else x)
                           (users s)\<rparr>)"
  using u act pw gen login_update_defined[OF u, of "\<lambda>u. u\<lparr>u_lastLoginAt := Some now\<rparr>"]
  by (simp add: login_def Let_def)

lemma login_log_cases:
  assumes run: "login e now req (Some d) s = (r, s')"
  shows "(case user_findUnique_email (toLowerCase (lb_email d)) (users s) of
            None \<Rightarrow> status r = 401 \<and> loginLogs s' = loginLogs s
          | Some u \<Rightarrow>
              if \<not> u_isActive u
              then status r = 403 \<and>
                   (\<exists>row. loginLogs s' = loginLogs s @ [row] \<and> ll_userId row = u_id u
                      \<and> ll_isSuccess row = False
                      \<and> ll_failReason row = Some ''ACCOUNT_DEACTIVATED'')
              else if \<not> bcrypt_compare (lb_password d) (u_password u)
              then status r = 401 \<and>
                   (\<exists>row. loginLogs s' = loginLogs s @ [row] \<and> ll_userId row = u_id u
                      \<and> ll_isSuccess row = False
                      \<and> ll_failReason row = Some ''INVALID_PASSWORD'')
              else if generateTokens e now (u_id u) = None
                      \<or> snd (signedTokens e now (u_id u)) \<in> rt_token ` set (refreshTokens s)
              then status r = 500 \<and> loginLogs s' = loginLogs s
              else status r = 200 \<and>
                   (\<exists>row. loginLogs s' = loginLogs s @ [row] \<and> ll_userId row = u_id u
                      \<and> ll_isSuccess row = True \<and> ll_failReason row = None))"
proof (cases "user_findUnique_email (toLowerCase (lb_email d)) (users s)")
  case None
  then show ?thesis using run login_unknown[OF None, of e now req] by auto
next
  case (Some u)
  show ?thesis
  proof (cases "u_isActive u")
    case False
    then show ?thesis
      using run Some login_deactivated[OF Some False, of e now req]
            logLoginAttempt_row[of "u_id u" req False "Some ''ACCOUNT_DEACTIVATED''" s]
      by auto
  next
    case True
    show ?thesis
    proof (cases "bcrypt_compare (lb_password d) (u_password u)")
      case False
      then show ?thesis
        using run Some True login_wrong_password[OF Some True False, of e now req]
              logLoginAttempt_row[of "u_id u" req False "Some ''INVALID_PASSWORD''" s]
        by auto
    next
      case pw: True
      show ?thesis
      proof (cases "generateTokens e now (u_id u) = None")
        case gen: True
        have "status r = 500 \<and> loginLogs s' = loginLogs s"
          using run login_unsigned[OF Some True pw gen, of req] by auto
        then show ?thesis using Some True pw gen by simp
      next
        case gen: False
        then have sec: "JWT_SECRET e \<noteq> []" "JWT_REFRESH_SECRET e \<noteq> []"
          by (simp_all add: generateTokens_None)
        show ?thesis
        proof (cases "snd (signedTokens e now (u_id u)) \<in> rt_token ` set (refreshTokens s)")
          case dup: True
          have "status r = 500 \<and> loginLogs s' = loginLogs s"
            using run login_token_stored[OF Some True pw dup, of req] by auto
          then show ?thesis using Some True pw dup by simp
        next
          case fresh: False
          note ok = login_right_password[OF Some True pw fresh sec, of req]
          have r: "status r = 200" using ok(1) run by simp
          have "\<exists>row. loginLogs s' = loginLogs s @ [row] \<and> ll_userId row = u_id u
                        \<and> ll_isSuccess row = True \<and> ll_failReason row = None"
            using ok(2) run by (simp add: logLoginAttempt_def)
          then show ?thesis using Some True pw gen fresh r by simp
        qed
      qed
    qed
  qed
qed

text \<open>
  An instance of the scenario of the specification: a wrong password for the active user
  of \<open>demo_store\<close>; one attempt adds one row, three attempts add three.
\<close>

lemma demo_wrong_login:
  "login demo_env 7000 demo_req (Some demo_wrong) demo_store =
     (json 401 (createErrorResponse ''Invalid credentials''
        (ERROR_CODES AUTH_INVALID_CREDENTIALS) 7000),
      demo_store\<lparr>loginLogs := [demo_failed_log]\<rparr>)"
  by (simp add: demo_wrong_def demo_failed_log_def demo_defs login_eval)

lemma demo_wrong_lookup:
  "user_findUnique_email (toLowerCase (lb_email demo_wrong)) (users demo_store) = Some demo_user
   \<and> u_isActive demo_user \<and> \<not> bcrypt_compare (lb_password demo_wrong) (u_password demo_user)"
  by (simp add: demo_wrong_def demo_defs login_eval)

lemma demo_three_wrong_logins:
  "\<exists>a b c. loginLogs (snd (login demo_env 9000 demo_req (Some demo_wrong)
              (snd (login demo_env 8000 demo_req (Some demo_wrong)
                 (snd (login demo_env 7000 demo_req (Some demo_wrong) demo_store))))))
            = loginLogs demo_store @ [a, b, c]
        \<and> ll_isSuccess a = False \<and> ll_isSuccess b = False \<and> ll_isSuccess c = False"
  using three_wrong_logins[OF demo_wrong_lookup[THEN conjunct1]
          demo_wrong_lookup[THEN conjunct2, THEN conjunct1]
          demo_wrong_lookup[THEN conjunct2, THEN conjunct2],
          of demo_env 9000 demo_req 8000 demo_req 7000 demo_req]
  by blast

text \<open>
  C9. A \<open>login\<close> with the right password of an active user does not always append a
  LoginLog row. The row of a successful login is written after the refresh token has
  been stored. When the refresh token \<open>t\<close> that \<open>generateTokens\<close> signs is stored
  already, the insert violates the uniqueness of the token column: the handler answers
  500, has written \<open>lastLoginAt\<close>, and appends no row, although the user was
  resolved. This happens whenever the same user logs in again within the second of a
  successful login, since the signed string depends on the user identifier and the
  second only. When \<open>t\<close> is not stored, the login is answered with 200 and appends
  one row with \<open>isSuccess = true\<close> and no reason.
\<close>

theorem login_without_log_row:
  assumes u: "user_findUnique_email (toLowerCase (lb_email d)) (users s) = Some u"
    and act: "u_isActive u" and pw: "bcrypt_compare (lb_password d) (u_password u)"
    and gen: "generateTokens e now (u_id u) = Some (a, t)"
  shows "(t \<in> rt_token ` set (refreshTokens s) \<longrightarrow>
            fst (login e now req (Some d) s) = internalError now
          \<and> loginLogs (snd (login e now req (Some d) s)) = loginLogs s
          \<and> users (snd (login e now req (Some d) s)) =
              map (\<lambda>x. if u_id x = u_id u then x\<lparr>u_lastLoginAt := Some now\<rparr> else x) (users s)
          \<and> refreshTokens (snd (login e now req (Some d) s)) = refreshTokens s)
       \<and> (t \<notin> rt_token ` set (refreshTokens s) \<longrightarrow>
            status (fst (login e now req (Some d) s)) = 200
          \<and> (\<exists>row. loginLogs (snd (login e now req (Some d) s)) = loginLogs s @ [row]
                \<and> ll_userId row = u_id u \<and> ll_isSuccess row = True
                \<and> ll_failReason row = None))
       \<and> (\<forall>now2 req2.
            status (fst (login e now req (Some d) s)) = 200 \<and> now2 div 1000 = now div 1000 \<longrightarrow>
            fst (login e now2 req2 (Some d) (snd (login e now req (Some d) s)))
              = internalError now2
          \<and> loginLogs (snd (login e now2 req2 (Some d) (snd (login e now req (Some d) s))))
              = loginLogs (snd (login e now req (Some d) s)))"
proof -
  let ?f = "\<lambda>x. if u_id x = u_id u then x\<lparr>u_lastLoginAt := Some now\<rparr> else x"
  have sec: "JWT_SECRET e \<noteq> []" "JWT_REFRESH_SECRET e \<noteq> []"
    and t: "t = snd (signedTokens e now (u_id u))"
    using gen by (auto simp: generateTokens_Some dest: arg_cong[where f = snd])
  have a: "fst (login e now req (Some d) s) = internalError now
          \<and> loginLogs (snd (login e now req (Some d) s)) = loginLogs s
          \<and> users (snd (login e now req (Some d) s)) = map ?f (users s)
          \<and> refreshTokens (snd (login e now req (Some d) s)) = refreshTokens s"
    if dup: "t \<in> rt_token ` set (refreshTokens s)"
    by (simp add: login_token_stored[OF u act pw dup[unfolded t]])
  have b: "status (fst (login e now req (Some d) s)) = 200
          \<and> (\<exists>row. loginLogs (snd (login e now req (Some d) s)) = loginLogs s @ [row]
                \<and> ll_userId row = u_id u \<and> ll_isSuccess row = True
                \<and> ll_failReason row = None)"
    if fresh: "t \<notin> rt_token ` set (refreshTokens s)"
    using login_right_password[OF u act pw fresh[unfolded t] sec, of req]
    by (simp add: logLoginAttempt_def)
  have c: "fst (login e now2 req2 (Some d) (snd (login e now req (Some d) s)))
              = internalError now2
          \<and> loginLogs (snd (login e now2 req2 (Some d) (snd (login e now req (Some d) s))))
              = loginLogs (snd (login e now req (Some d) s))"
    if h: "status (fst (login e now req (Some d) s)) = 200 \<and> now2 div 1000 = now div 1000"
    for now2 req2
  proof -
    let ?s1 = "snd (login e now req (Some d) s)"
    let ?tok = "snd (signedTokens e now (u_id u))"
    have fresh: "?tok \<notin> rt_token ` set (refreshTokens s)"
    proof
      assume "?tok \<in> rt_token ` set (refreshTokens s)"
      then have "status (fst (login e now req (Some d) s)) = 500"
        by (simp add: login_token_stored[OF u act pw])
      with h show False by simp
    qed
    note s1 = login_right_password(2)[OF u act pw fresh sec, of req]
    have us1: "users ?s1 = map ?f (users s)"
      and rs1: "refreshTokens ?s1 = refreshTokens s @
                  [\<lparr>rt_id = fresh_id (map rt_id (refreshTokens s)), rt_userId = u_id u,
                    rt_token = ?tok, rt_isRevoked = False, rt_expiresAt = expiresAt e now\<rparr>]"
      by (simp_all add: s1)
    have "user_findUnique_email (toLowerCase (lb_email d)) (users ?s1) =
            map_option ?f (user_findUnique_email (toLowerCase (lb_email d)) (users s))"
      unfolding us1 user_findUnique_email_def by (rule find_map_pres) simp
    then have u1: "user_findUnique_email (toLowerCase (lb_email d)) (users ?s1) =
                     Some (u\<lparr>u_lastLoginAt := Some now\<rparr>)"
      by (simp add: u)
    have act1: "u_isActive (u\<lparr>u_lastLoginAt := Some now\<rparr>)"
      and pw1: "bcrypt_compare (lb_password d) (u_password (u\<lparr>u_lastLoginAt := Some now\<rparr>))"
      using act pw by simp_all
    have "snd (signedTokens e now2 (u_id u)) = ?tok"
      by (simp add: signedTokens_same_second[OF conjunct2[OF h]])
    then have dup1: "snd (signedTokens e now2 (u_id (u\<lparr>u_lastLoginAt := Some now\<rparr>)))
                       \<in> rt_token ` set (refreshTokens ?s1)"
      by (simp add: rs1)
    show ?thesis
      by (simp add: login_token_stored[OF u1 act1 pw1 dup1])
  qed
  have a': "t \<in> rt_token ` set (refreshTokens s) \<longrightarrow>
            fst (login e now req (Some d) s) = internalError now
          \<and> loginLogs (snd (login e now req (Some d) s)) = loginLogs s
          \<and> users (snd (login e now req (Some d) s)) = map ?f (users s)
          \<and> refreshTokens (snd (login e now req (Some d) s)) = refreshTokens s"
    by (intro impI) (rule a)
  have b': "t \<notin> rt_token ` set (refreshTokens s) \<longrightarrow>
            status (fst (login e now req (Some d) s)) = 200
          \<and> (\<exists>row. loginLogs (snd (login e now req (Some d) s)) = loginLogs s @ [row]
                \<and> ll_userId row = u_id u \<and> ll_isSuccess row = True
                \<and> ll_failReason row = None)"
    by (intro impI) (rule b)
  have c': "\<forall>now2 req2.
            status (fst (login e now req (Some d) s)) = 200 \<and> now2 div 1000 = now div 1000 \<longrightarrow>
            fst (login e now2 req2 (Some d) (snd (login e now req (Some d) s)))
              = internalError now2
          \<and> loginLogs (snd (login e now2 req2 (Some d) (snd (login e now req (Some d) s))))
              = loginLogs (snd (login e now req (Some d) s))"
    by (intro allI impI) (rule c)
  show ?thesis
    by (intro conjI) (rule a', rule b', rule c')
qed

text \<open>
  An instance: the active user of \<open>demo_store\<close> logs in at time 7000 and again at time
  7500. The first login is answered with 200 and appends one row; the second is
  answered with 500 and appends none. A login at time 500 fails likewise, since the
  store holds the refresh token signed at time 0.
\<close>

lemma demo_right_lookup:
  "user_findUnique_email (toLowerCase (lb_email demo_right)) (users demo_store) = Some demo_user
   \<and> u_isActive demo_user \<and> bcrypt_compare (lb_password demo_right) (u_password demo_user)"
  by (simp add: demo_right_def demo_defs login_eval)

theorem login_without_log_row_witness:
  "status (fst (login demo_env 7000 demo_req (Some demo_right) demo_store)) = 200
   \<and> (\<exists>row. loginLogs (snd (login demo_env 7000 demo_req (Some demo_right) demo_store)) = [row]
         \<and> ll_isSuccess row = True)
   \<and> fst (login demo_env 7500 demo_req (Some demo_right)
            (snd (login demo_env 7000 demo_req (Some demo_right) demo_store)))
       = internalError 7500
   \<and> loginLogs (snd (login demo_env 7500 demo_req (Some demo_right)
                      (snd (login demo_env 7000 demo_req (Some demo_right) demo_store))))
       = loginLogs (snd (login demo_env 7000 demo_req (Some demo_right) demo_store))
   \<and> fst (login demo_env 500 demo_req (Some demo_right) demo_store) = internalError 500
   \<and> loginLogs (snd (login demo_env 500 demo_req (Some demo_right) demo_store)) = []"
proof -
  note u = demo_right_lookup[THEN conjunct1]
    and act = demo_right_lookup[THEN conjunct2, THEN conjunct1]
    and pw = demo_right_lookup[THEN conjunct2, THEN conjunct2]
  have gen: "generateTokens demo_env 7000 (u_id demo_user) =
               Some (fst (signedTokens demo_env 7000 1), demo_token 7000)"
    and gen0: "generateTokens demo_env 500 (u_id demo_user) =
               Some (fst (signedTokens demo_env 500 1), demo_token 0)"
    by (simp_all add: demo_defs generateTokens_def signedTokens_def jwt_sign_def Let_def)
  note th = login_without_log_row[OF u act pw gen, of demo_req]
  note th0 = login_without_log_row[OF u act pw gen0, of demo_req]
  have fresh: "demo_token 7000 \<notin> rt_token ` set (refreshTokens demo_store)"
    by (simp add: demo_defs signedTokens_def jwt_sign_def Let_def)
  have dup: "demo_token 0 \<in> rt_token ` set (refreshTokens demo_store)"
    by (simp add: demo_defs)
  note first = mp[OF conjunct1[OF conjunct2[OF th]] fresh]
  have ok: "status (fst (login demo_env 7000 demo_req (Some demo_right) demo_store)) = 200"
    by (rule conjunct1[OF first])
  have row: "\<exists>row. loginLogs (snd (login demo_env 7000 demo_req (Some demo_right) demo_store))
                     = [row] \<and> ll_isSuccess row = True"
    using conjunct2[OF first] by (auto simp: demo_store_def)
  have sec: "(7500::nat) div 1000 = 7000 div 1000"
    by simp
  note second = conjunct2[OF conjunct2[OF th], THEN spec, of 7500, THEN spec, of demo_req,
                  THEN mp, OF conjI[OF ok sec]]
  note early = mp[OF conjunct1[OF th0] dup]
  have none: "loginLogs (snd (login demo_env 500 demo_req (Some demo_right) demo_store)) = []"
    using conjunct1[OF conjunct2[OF early]] by (simp add: demo_store_def)
  show ?thesis
    by (intro conjI)
       (rule ok, rule row, rule conjunct1[OF second], rule conjunct2[OF second],
        rule conjunct1[OF early], rule none)
qed

text \<open>
  C4 (as amended). A \<open>login\<close> with an e-mail that matches no user and a \<open>login\<close> with
  the e-mail of an active user and a wrong password are answered alike, whatever the
  stores, the requests and the environments: status 401 with message
  \<open>Invalid credentials\<close> and code \<open>AUTH_INVALID_CREDENTIALS\<close>. Either response is this
  constant stamped with the clock reading of its request, so the two are identical at
  equal clock readings.
\<close>

theorem login_same_error:
  assumes "user_findUnique_email (toLowerCase (lb_email d1)) (users s1) = None"
    and "user_findUnique_email (toLowerCase (lb_email d2)) (users s2) = Some u"
    and "u_isActive u" and "\<not> bcrypt_compare (lb_password d2) (u_password u)"
  shows "fst (login e1 now1 req1 (Some d1) s1) =
           json 401 (createErrorResponse ''Invalid credentials''
             (ERROR_CODES AUTH_INVALID_CREDENTIALS) now1)
       \<and> fst (login e2 now2 req2 (Some d2) s2) =
           json 401 (createErrorResponse ''Invalid credentials''
             (ERROR_CODES AUTH_INVALID_CREDENTIALS) now2)
       \<and> (now1 = now2 \<longrightarrow>
            fst (login e1 now1 req1 (Some d1) s1) = fst (login e2 now2 req2 (Some d2) s2))"
  using login_unknown[OF assms(1)] login_wrong_password[OF assms(2-4)] by simp

text \<open>
  An instance on \<open>demo_store\<close>: an unknown e-mail, and the active user with a wrong
  password.
\<close>

theorem login_same_error_witness:
  "fst (login demo_env 7000 demo_req (Some demo_nobody) demo_store)
     = fst (login demo_env 7000 demo_req (Some demo_wrong) demo_store)
   \<and> status (fst (login demo_env 7000 demo_req (Some demo_nobody) demo_store)) = 401"
proof -
  have none: "user_findUnique_email (toLowerCase (lb_email demo_nobody)) (users demo_store)
                = None"
    by (simp add: demo_nobody_def demo_defs login_eval)
  have some: "user_findUnique_email (toLowerCase (lb_email demo_wrong)) (users demo_store)
                = Some demo_user"
    and act: "u_isActive demo_user"
    and pw: "\<not> bcrypt_compare (lb_password demo_wrong) (u_password demo_user)"
    using demo_wrong_lookup by simp_all
  note th = login_same_error[OF none some act pw, of demo_env 7000 demo_req demo_env 7000
              demo_req]
  have same: "fst (login demo_env 7000 demo_req (Some demo_nobody) demo_store)
     = fst (login demo_env 7000 demo_req (Some demo_wrong) demo_store)"
    by (rule mp[OF conjunct2[OF conjunct2[OF th]] refl])
  have "status (fst (login demo_env 7000 demo_req (Some demo_nobody) demo_store)) = 401"
    by (simp add: conjunct1[OF th])
  with same show ?thesis by (rule conjI)
qed

text \<open>
  For a deactivated account the two responses differ: the account check precedes the
  password check, and a wrong password for the deactivated user of \<open>demo_store\<close> is
  answered with 403, an unknown e-mail with 401.
\<close>

theorem login_same_error_counterexample:
  "fst (login demo_env 7000 demo_req (Some demo_wrong_disabled) demo_store)
     = json 403 (createErrorResponse ''Account is deactivated''
         (ERROR_CODES AUTH_ACCOUNT_DEACTIVATED) 7000)
   \<and> fst (login demo_env 7000 demo_req (Some demo_nobody) demo_store)
     = json 401 (createErrorResponse ''Invalid credentials''
         (ERROR_CODES AUTH_INVALID_CREDENTIALS) 7000)
   \<and> user_findUnique_email (toLowerCase (lb_email demo_wrong_disabled)) (users demo_store)
       = Some demo_disabled
   \<and> \<not> bcrypt_compare (lb_password demo_wrong_disabled) (u_password demo_disabled)
   \<and> user_findUnique_email (toLowerCase (lb_email demo_nobody)) (users demo_store) = None"
  by (simp add: demo_wrong_disabled_def demo_nobody_def demo_defs login_eval)

section \<open>Token lifetimes and purposes\<close>

lemmas jwt_service_defs = generateAccessToken_def generateRefreshToken_def
  verifyAccessToken_def verifyRefreshToken_def generatePasswordResetToken_def
  verifyPasswordResetToken_def generateEmailVerifyToken_def verifyEmailVerifyToken_def
  getAccessExpiresIn_def getRefreshExpiresIn_def jwt_sign_def jwt_verify_def

text \<open>
  \<open>JwtService.generateAccessToken\<close> stamps the configured lifetime, and
  \<open>verifyAccessToken\<close> refuses the token from the second of expiry on.
\<close>

lemma generateAccessToken_expires:
  assumes "generateAccessToken e now uid em rl sid = Inr t"
  shows "(now div 1000 + getAccessExpiresIn e \<le> now' div 1000
            \<longrightarrow> verifyAccessToken e now' t = Inl ''Access token expired'')
       \<and> (now' div 1000 < now div 1000 + getAccessExpiresIn e
            \<longrightarrow> (\<exists>p. verifyAccessToken e now' t = Inr p
                   \<and> p_exp p = Some (now div 1000 + getAccessExpiresIn e)))"
  using assms by (auto simp: jwt_service_defs split: if_splits)

lemma default_access_lifetime: "JWT_EXPIRES_IN e = None \<Longrightarrow> getAccessExpiresIn e = 900"
  by (simp add: getAccessExpiresIn_def)

text \<open>
  C3. The access token of the pair that a successful \<open>login\<close> returns is signed by the
  controller's own \<open>generateTokens\<close>, which passes no \<open>expiresIn\<close>: its payload holds
  the user id and \<open>iat\<close> only, and verification with the access secret accepts it at
  every later time, whatever lifetime is configured.
\<close>

theorem login_access_token_without_expiry:
  assumes run: "login e now req bdy s = (r, s')" and ok: "status r = 200"
  shows "\<exists>u a rt. data (body r) = LoginData u a rt
          \<and> (\<forall>now'. jwt_verify a (JWT_SECRET e) now' =
                Inr \<lparr>p_claims = \<lparr>c_userId = ur_id u, c_email = None, c_role = None,
                                   c_sessionId = None, c_type = None\<rparr>,
                     p_iat = now div 1000, p_exp = None\<rparr>)
          \<and> (JWT_SECRET e \<noteq> [] \<longrightarrow>
               (\<forall>now'. verifyAccessToken e now' a =
                  Inr \<lparr>p_claims = \<lparr>c_userId = ur_id u, c_email = None, c_role = None,
                                     c_sessionId = None, c_type = None\<rparr>,
                       p_iat = now div 1000, p_exp = None\<rparr>))"
proof -
  from run ok obtain d0 u us0 rs0 where
    "bdy = Some d0"
    "user_findUnique_email (toLowerCase (lb_email d0)) (users s) = Some u"
    "user_update (u_id u) (\<lambda>u. u\<lparr>u_lastLoginAt := Some now\<rparr>) (users s) = Some us0"
    "refreshToken_create (u_id u) (snd (signedTokens e now (u_id u))) (expiresAt e now)
       (refreshTokens s) = Some rs0" and
    sec: "JWT_SECRET e \<noteq> []" and
    d: "data (body r) = LoginData
        \<lparr>ur_id = u_id u, ur_email = u_email u, ur_firstName = u_firstName u,
         ur_lastName = u_lastName u, ur_username = u_username u, ur_avatar = u_avatar u,
         ur_role = u_role u, ur_isEmailVerified = u_isEmailVerified u,
         ur_lastLoginAt = u_lastLoginAt u\<rparr>
        (fst (signedTokens e now (u_id u))) (snd (signedTokens e now (u_id u)))"
    by (rule login_ok_cases)
  have v: "jwt_verify (fst (signedTokens e now (u_id u))) (JWT_SECRET e) now' =
             Inr \<lparr>p_claims = \<lparr>c_userId = u_id u, c_email = None, c_role = None,
                                c_sessionId = None, c_type = None\<rparr>,
                  p_iat = now div 1000, p_exp = None\<rparr>" for now'
    using sec by (simp add: signedTokens_def jwt_verify_def jwt_sign_def Let_def)
  have "verifyAccessToken e now' (fst (signedTokens e now (u_id u))) =
             Inr \<lparr>p_claims = \<lparr>c_userId = u_id u, c_email = None, c_role = None,
                                c_sessionId = None, c_type = None\<rparr>,
                  p_iat = now div 1000, p_exp = None\<rparr>"
    if "JWT_SECRET e \<noteq> []" for now'
    using that by (simp add: verifyAccessToken_def v)
  with d v show ?thesis by simp
qed

text \<open>
  An instance: the active user of \<open>demo_store\<close> logs in at time 7000 with the default
  lifetime of 15 minutes configured; the access token is accepted 16 minutes later.
\<close>

theorem login_access_token_without_expiry_witness:
  "status (fst (login demo_env 7000 demo_req (Some demo_right) demo_store)) = 200
   \<and> JWT_EXPIRES_IN demo_env = None
   \<and> (\<exists>u a rt. data (body (fst (login demo_env 7000 demo_req (Some demo_right) demo_store)))
                 = LoginData u a rt
        \<and> verifyAccessToken demo_env (7000 + 16 * 60 * 1000) a =
            Inr \<lparr>p_claims = \<lparr>c_userId = ur_id u, c_email = None, c_role = None,
                               c_sessionId = None, c_type = None\<rparr>,
                 p_iat = 7, p_exp = None\<rparr>)"
proof -
  have ok: "status (fst (login demo_env 7000 demo_req (Some demo_right) demo_store)) = 200"
    by (simp add: demo_right_def demo_defs login_eval generateTokens_def signedTokens_def jwt_sign_def
          refreshToken_create_def expiresAt_def LocalTime_def UTC_def msPerDay_def Let_def)
  have run: "login demo_env 7000 demo_req (Some demo_right) demo_store =
      (fst (login demo_env 7000 demo_req (Some demo_right) demo_store),
       snd (login demo_env 7000 demo_req (Some demo_right) demo_store))"
    by simp
  have sec: "JWT_SECRET demo_env \<noteq> []" and life: "JWT_EXPIRES_IN demo_env = None"
    by (simp_all add: demo_env_def)
  from login_access_token_without_expiry[OF run ok] sec
  have "\<exists>u a rt. data (body (fst (login demo_env 7000 demo_req (Some demo_right) demo_store)))
                 = LoginData u a rt
        \<and> verifyAccessToken demo_env (7000 + 16 * 60 * 1000) a =
            Inr \<lparr>p_claims = \<lparr>c_userId = ur_id u, c_email = None, c_role = None,
                               c_sessionId = None, c_type = None\<rparr>,
                 p_iat = 7, p_exp = None\<rparr>"
    by fastforce
  with ok life show ?thesis by simp
qed

text \<open>
  \<open>verifyEmailVerifyToken\<close> and \<open>verifyPasswordResetToken\<close> compare the \<open>type\<close> claim
  with their own purpose and refuse any other token of the access secret.
\<close>

lemma purpose_checked_by_siblings:
  "(generatePasswordResetToken e now uid em = Inr t
      \<longrightarrow> verifyEmailVerifyToken e now t = Inl ''Email verification token verification failed'')
   \<and> (generateEmailVerifyToken e now uid em = Inr t'
      \<longrightarrow> verifyPasswordResetToken e now t'
            = Inl ''Password reset token verification failed'')
   \<and> (generateAccessToken e now uid em rl sid = Inr t'' \<and> 0 < getAccessExpiresIn e
      \<longrightarrow> verifyEmailVerifyToken e now t''
            = Inl ''Email verification token verification failed'')"
  by (auto simp: jwt_service_defs split: if_splits)

text \<open>
  C2. \<open>verifyAccessToken\<close> checks signature and expiry only. A token issued for e-mail
  verification or for a password reset is signed with the access secret, so until it
  expires \<open>verifyAccessToken\<close> accepts it and returns its payload, the foreign \<open>type\<close>
  claim included.
\<close>

theorem purpose_token_accepted_as_access:
  "(generateEmailVerifyToken e now uid em = Inr t \<and> now' div 1000 < now div 1000 + 24 * 3600
      \<longrightarrow> (\<exists>p. verifyAccessToken e now' t = Inr p
             \<and> c_type (p_claims p) = Some ''email_verify'' \<and> c_userId (p_claims p) = uid))
   \<and> (generatePasswordResetToken e now uid em = Inr t' \<and> now' div 1000 < now div 1000 + 3600
      \<longrightarrow> (\<exists>p. verifyAccessToken e now' t' = Inr p
             \<and> c_type (p_claims p) = Some ''password_reset'' \<and> c_userId (p_claims p) = uid))"
  by (auto simp: jwt_service_defs split: if_splits)

theorem purpose_token_accepted_as_access_witness:
  "generateEmailVerifyToken demo_env 7000 1 ''a@x.com'' = Inr demo_verify_token
   \<and> (\<exists>p. verifyAccessToken demo_env 60000 demo_verify_token = Inr p
          \<and> c_type (p_claims p) = Some ''email_verify'' \<and> c_userId (p_claims p) = 1)"
proof -
  have gen: "generateEmailVerifyToken demo_env 7000 1 ''a@x.com'' = Inr demo_verify_token"
    by (simp add: demo_verify_token_def demo_env_def generateEmailVerifyToken_def jwt_sign_def)
  have live: "(60000::nat) div 1000 < 7000 div 1000 + 24 * 3600" by simp
  from conjunct1[OF purpose_token_accepted_as_access[of demo_env 7000 1 "''a@x.com''"
         demo_verify_token 60000]] gen live
  have "\<exists>p. verifyAccessToken demo_env 60000 demo_verify_token = Inr p
          \<and> c_type (p_claims p) = Some ''email_verify'' \<and> c_userId (p_claims p) = 1"
    by blast
  with gen show ?thesis by (rule conjI)
qed

section \<open>Password change and logout\<close>

lemma changePassword_ok_cases:
  assumes run: "changePassword e now uid bdy s = (r, s')" and ok: "status r = 200"
  obtains d u us' where
    "bdy = Some d" "user_findUnique_id uid (users s) = Some u"
    "bcrypt_compare (cp_currentPassword d) (u_password u)"
    "user_update uid (\<lambda>u. u\<lparr>u_password := bcrypt_hash (cp_newPassword d) (saltRounds e)\<rparr>)
       (users s) = Some us'"
    "s' = s\<lparr>users := us',
            refreshTokens := refreshToken_updateMany (\<lambda>r. rt_userId r = uid)
                (\<lambda>r. r\<lparr>rt_isRevoked := True\<rparr>) (refreshTokens s)\<rparr>"
proof -
  obtain d where d: "bdy = Some d"
    using run ok by (cases bdy) (auto simp: changePassword_def)
  obtain u where u: "user_findUnique_id uid (users s) = Some u"
    using run ok d by (cases "user_findUnique_id uid (users s)") (auto simp: changePassword_def)
  have pw: "bcrypt_compare (cp_currentPassword d) (u_password u)"
    using run ok d u by (auto simp: changePassword_def split: if_splits)
  obtain us' where us':
    "user_update uid (\<lambda>u. u\<lparr>u_password := bcrypt_hash (cp_newPassword d) (saltRounds e)\<rparr>)
       (users s) = Some us'"
    using run ok d u pw
    by (cases "user_update uid
           (\<lambda>u. u\<lparr>u_password := bcrypt_hash (cp_newPassword d) (saltRounds e)\<rparr>) (users s)")
       (auto simp: changePassword_def)
  have "s' = s\<lparr>users := us',
            refreshTokens := refreshToken_updateMany (\<lambda>r. rt_userId r = uid)
                (\<lambda>r. r\<lparr>rt_isRevoked := True\<rparr>) (refreshTokens s)\<rparr>"
    using run d u pw us' by (auto simp: changePassword_def)
  with d u pw us' show ?thesis using that by blast
qed

lemma updateMany_columns:
  "map rt_token (refreshToken_updateMany P (\<lambda>r. r\<lparr>rt_isRevoked := True\<rparr>) rs) = map rt_token rs"
  "map rt_userId (refreshToken_updateMany P (\<lambda>r. r\<lparr>rt_isRevoked := True\<rparr>) rs)
     = map rt_userId rs"
  by (induction rs) (simp_all add: refreshToken_updateMany_def)

text \<open>
  C6. When \<open>changePassword\<close> answers 200 for user \<open>uid\<close>, the refresh-token table keeps
  its rows (same token strings, same owners) and every row owned by \<open>uid\<close> is revoked.
  Hence, after any further sequence of requests, a \<open>refreshToken\<close> call presenting a
  token whose stored row belonged to \<open>uid\<close> before the change is answered with 401
  and changes nothing.
\<close>

theorem changePassword_revokes:
  assumes run: "changePassword e now uid bdy s = (r, s')" and ok: "status r = 200"
  shows "map rt_token (refreshTokens s') = map rt_token (refreshTokens s)
       \<and> map rt_userId (refreshTokens s') = map rt_userId (refreshTokens s)
       \<and> (\<forall>row \<in> set (refreshTokens s'). rt_userId row = uid \<longrightarrow> rt_isRevoked row)
       \<and> (\<forall>t row ops now2.
             refreshToken_findUnique_token t (refreshTokens s) = Some row \<and> rt_userId row = uid
             \<longrightarrow> status (fst (refreshToken e now2 (Some t) (run e ops s'))) = 401
               \<and> code (body (fst (refreshToken e now2 (Some t) (run e ops s'))))
                   = ERROR_CODES AUTH_TOKEN_EXPIRED
               \<and> snd (refreshToken e now2 (Some t) (run e ops s')) = run e ops s')"
proof -
  from run ok obtain d u us' where
    "bdy = Some d" "user_findUnique_id uid (users s) = Some u"
    "user_update uid (\<lambda>u. u\<lparr>u_password := bcrypt_hash (cp_newPassword d) (saltRounds e)\<rparr>)
       (users s) = Some us'" and
    s': "s' = s\<lparr>users := us',
            refreshTokens := refreshToken_updateMany (\<lambda>r. rt_userId r = uid)
                (\<lambda>r. r\<lparr>rt_isRevoked := True\<rparr>) (refreshTokens s)\<rparr>"
    by (rule changePassword_ok_cases)
  have a: "map rt_token (refreshTokens s') = map rt_token (refreshTokens s)"
    and b: "map rt_userId (refreshTokens s') = map rt_userId (refreshTokens s)"
    by (simp_all add: s' updateMany_columns)
  have c: "\<forall>row \<in> set (refreshTokens s'). rt_userId row = uid \<longrightarrow> rt_isRevoked row"
    using updateMany_all_revoked[of "\<lambda>r. rt_userId r = uid" "refreshTokens s"]
    unfolding s' list_all_iff by simp
  have d: "status (fst (refreshToken e now2 (Some t) (run e ops s'))) = 401
               \<and> code (body (fst (refreshToken e now2 (Some t) (run e ops s'))))
                   = ERROR_CODES AUTH_TOKEN_EXPIRED
               \<and> snd (refreshToken e now2 (Some t) (run e ops s')) = run e ops s'"
    if "refreshToken_findUnique_token t (refreshTokens s) = Some row \<and> rt_userId row = uid"
    for t row ops now2
  proof -
    have "refreshToken_findUnique_token t (refreshTokens s') = Some (row\<lparr>rt_isRevoked := True\<rparr>)"
      using that by (simp add: s' updateMany_find)
    then have "revoked t (refreshTokens s')" by (simp add: revoked_def)
    then have "revoked t (refreshTokens (run e ops s'))" by (rule run_revoked)
    then show ?thesis by (rule revoked_rejected)
  qed
  have d': "\<forall>t row ops now2.
             refreshToken_findUnique_token t (refreshTokens s) = Some row \<and> rt_userId row = uid
             \<longrightarrow> status (fst (refreshToken e now2 (Some t) (run e ops s'))) = 401
               \<and> code (body (fst (refreshToken e now2 (Some t) (run e ops s'))))
                   = ERROR_CODES AUTH_TOKEN_EXPIRED
               \<and> snd (refreshToken e now2 (Some t) (run e ops s')) = run e ops s'"
    by (intro allI impI) (rule d)
  show ?thesis by (intro conjI) (rule a, rule b, rule c, rule d')
qed

text \<open>
  An instance: the active user of \<open>demo_store\<close> changes the password at time 8000; the
  refresh token stored before is refused afterwards.
\<close>

theorem changePassword_revokes_witness:
  "status (fst (changePassword demo_env 8000 1 (Some demo_change) demo_store)) = 200
   \<and> refreshToken_findUnique_token (demo_token 0) (refreshTokens demo_store)
       = Some \<lparr>rt_id = 1, rt_userId = 1, rt_token = demo_token 0, rt_isRevoked = False,
               rt_expiresAt = 604800000\<rparr>
   \<and> status (fst (refreshToken demo_env 9000 (Some (demo_token 0))
                    (run demo_env [Login 8500 demo_req (Some demo_right)]
                       (snd (changePassword demo_env 8000 1 (Some demo_change) demo_store)))))
       = 401"
proof -
  have ok: "status (fst (changePassword demo_env 8000 1 (Some demo_change) demo_store)) = 200"
    by (simp add: changePassword_def demo_change_def demo_defs user_findUnique_id_def
          user_update_def bcrypt_compare_def)
  have run: "changePassword demo_env 8000 1 (Some demo_change) demo_store =
      (fst (changePassword demo_env 8000 1 (Some demo_change) demo_store),
       snd (changePassword demo_env 8000 1 (Some demo_change) demo_store))"
    by simp
  have row: "refreshToken_findUnique_token (demo_token 0) (refreshTokens demo_store)
       = Some \<lparr>rt_id = 1, rt_userId = 1, rt_token = demo_token 0, rt_isRevoked = False,
               rt_expiresAt = 604800000\<rparr>"
    by (simp add: demo_store_def refreshToken_findUnique_token_def)
  have own: "rt_userId \<lparr>rt_id = 1, rt_userId = 1, rt_token = demo_token 0,
               rt_isRevoked = False, rt_expiresAt = 604800000\<rparr> = 1"
    by simp
  note th = changePassword_revokes[OF run ok]
  note rej = conjunct2[OF conjunct2[OF conjunct2[OF th]],
               THEN spec, of "demo_token 0", THEN spec,
               of "\<lparr>rt_id = 1, rt_userId = 1, rt_token = demo_token 0,
                     rt_isRevoked = False, rt_expiresAt = 604800000\<rparr>",
               THEN spec, of "[Login 8500 demo_req (Some demo_right)]",
               THEN spec, of 9000, THEN mp, OF conjI[OF row own]]
  show ?thesis by (intro conjI) (rule ok, rule row, rule conjunct1[OF rej])
qed

lemma logout_idem: "snd (logout now2 bdy (snd (logout now1 bdy s))) = snd (logout now1 bdy s)"
proof (cases bdy)
  case None
  then show ?thesis by (simp add: logout_def)
next
  case (Some f)
  then show ?thesis
    by (cases f) (simp_all add: logout_def logout_updateMany_def updateMany_idem)
qed

text \<open>
  What \<open>logout\<close> does when the request has a body and the field is absent or a string:
  it answers 200; a non-empty string revokes every refresh-token row of that string and
  leaves every other row and table as it was; a second call with the same input leaves
  the store of the first call unchanged; when no token is given, or no unrevoked row has
  the given string, the store is unchanged.
\<close>

lemma logout_text:
  assumes "bdy = Some Falsy \<or> bdy = Some (Text t)"
  shows "fst (logout now bdy s) =
      json 200 (createSuccessResponse Null ''Logged out successfully''
                  (Literal ''LOGOUT_SUCCESS'') now)"
    and "snd (logout now2 bdy (snd (logout now bdy s))) = snd (logout now bdy s)"
    and "bdy = Some (Text t) \<and> truthy t \<Longrightarrow>
         refreshTokens (snd (logout now bdy s)) =
           map (\<lambda>r. if rt_token r = t then r\<lparr>rt_isRevoked := True\<rparr> else r) (refreshTokens s)"
    and "bdy = Some (Text t) \<and> truthy t \<Longrightarrow>
         list_all (\<lambda>row. rt_token row = t \<longrightarrow> rt_isRevoked row)
           (refreshTokens (snd (logout now bdy s)))"
    and "bdy = Some Falsy \<or> \<not> truthy t
           \<or> list_all (\<lambda>row. rt_token row = t \<longrightarrow> rt_isRevoked row) (refreshTokens s)
         \<Longrightarrow> snd (logout now bdy s) = s"
    and "users (snd (logout now bdy s)) = users s"
    and "loginLogs (snd (logout now bdy s)) = loginLogs s"
    and "emailVerifications (snd (logout now bdy s)) = emailVerifications s"
proof -
  show "fst (logout now bdy s) =
      json 200 (createSuccessResponse Null ''Logged out successfully''
                  (Literal ''LOGOUT_SUCCESS'') now)"
    using assms by (auto simp: logout_def logout_updateMany_def)
  show "snd (logout now2 bdy (snd (logout now bdy s))) = snd (logout now bdy s)"
    by (rule logout_idem)
  show "refreshTokens (snd (logout now bdy s)) =
           map (\<lambda>r. if rt_token r = t then r\<lparr>rt_isRevoked := True\<rparr> else r) (refreshTokens s)"
    if "bdy = Some (Text t) \<and> truthy t"
    using that by (simp add: logout_def logout_updateMany_def refreshToken_updateMany_def)
  show "list_all (\<lambda>row. rt_token row = t \<longrightarrow> rt_isRevoked row)
           (refreshTokens (snd (logout now bdy s)))"
    if "bdy = Some (Text t) \<and> truthy t"
    using that updateMany_all_revoked[of "\<lambda>r. rt_token r = t" "refreshTokens s"]
    by (simp add: logout_def logout_updateMany_def)
  show "snd (logout now bdy s) = s"
    if "bdy = Some Falsy \<or> \<not> truthy t
           \<or> list_all (\<lambda>row. rt_token row = t \<longrightarrow> rt_isRevoked row) (refreshTokens s)"
    using that assms by (auto simp: logout_def logout_updateMany_def updateMany_noop)
  show "users (snd (logout now bdy s)) = users s"
    and "loginLogs (snd (logout now bdy s)) = loginLogs s"
    and "emailVerifications (snd (logout now bdy s)) = emailVerifications s"
    using assms by (auto simp: logout_def logout_updateMany_def)
qed

text \<open>
  C8. \<open>logout\<close> does not always succeed. A request without a parsed body is answered
  with 500 (\<open>Internal server error\<close>), and so is a request whose \<open>refreshToken\<close> field
  is a truthy value that the database client refuses; the store is left as it was.
  These are the only requests that are not answered with 200.
\<close>

theorem logout_internal_error:
  "logout now None s = (internalError now, s)
   \<and> logout now (Some Invalid) s = (internalError now, s)
   \<and> status (fst (logout now None s)) = 500
   \<and> (status (fst (logout now bdy s)) = 200) = (bdy \<noteq> None \<and> bdy \<noteq> Some Invalid)"
proof -
  have a: "logout now None s = (internalError now, s)"
    by (simp add: logout_def)
  have b: "logout now (Some Invalid) s = (internalError now, s)"
    by (simp add: logout_def logout_updateMany_def)
  have c: "status (fst (logout now None s)) = 500"
    by (simp add: a)
  have d: "(status (fst (logout now bdy s)) = 200) = (bdy \<noteq> None \<and> bdy \<noteq> Some Invalid)"
  proof (cases bdy)
    case None
    then show ?thesis by (simp add: a)
  next
    case (Some f)
    then show ?thesis
      by (cases f) (simp_all add: logout_def logout_updateMany_def)
  qed
  show ?thesis
    by (intro conjI) (rule a, rule b, rule c, rule d)
qed

text \<open>
  An instance on \<open>demo_store\<close>: a logout without a body and a logout whose token
  field is an invalid value are answered with 500; a logout with the stored token is
  answered with 200.
\<close>

theorem logout_internal_error_witness:
  "fst (logout 9000 None demo_store) = internalError 9000
   \<and> status (fst (logout 9000 None demo_store)) = 500
   \<and> status (fst (logout 9000 (Some Invalid) demo_store)) = 500
   \<and> status (fst (logout 9000 (Some (Text (demo_token 0))) demo_store)) = 200"
proof -
  note th = logout_internal_error[of 9000 demo_store "Some (Text (demo_token 0))"]
  have a: "fst (logout 9000 None demo_store) = internalError 9000"
    by (simp add: conjunct1[OF th])
  have b: "status (fst (logout 9000 None demo_store)) = 500"
    by (rule conjunct1[OF conjunct2[OF conjunct2[OF th]]])
  have c: "status (fst (logout 9000 (Some Invalid) demo_store)) = 500"
    by (simp add: conjunct1[OF conjunct2[OF th]])
  have d: "status (fst (logout 9000 (Some (Text (demo_token 0))) demo_store)) = 200"
    by (simp add: conjunct2[OF conjunct2[OF conjunct2[OF th]]])
  show ?thesis
    by (intro conjI) (rule a, rule b, rule c, rule d)
qed

lemma demo_logout:
  "refreshTokens (snd (logout 9000 (Some (Text (demo_token 0))) demo_store)) =
      [\<lparr>rt_id = 1, rt_userId = 1, rt_token = demo_token 0, rt_isRevoked = True,
        rt_expiresAt = 604800000\<rparr>]
   \<and> snd (logout 9500 (Some (Text (demo_token 0)))
           (snd (logout 9000 (Some (Text (demo_token 0))) demo_store)))
       = snd (logout 9000 (Some (Text (demo_token 0))) demo_store)
   \<and> snd (logout 9000 (Some Falsy) demo_store) = demo_store"
proof -
  have tr: "Some (Text (demo_token 0)) = Some (Text (demo_token 0)) \<and> truthy (demo_token 0)"
    by (simp add: truthy_def demo_token_def generateTokens_def signedTokens_def jwt_sign_def Let_def)
  have a: "refreshTokens (snd (logout 9000 (Some (Text (demo_token 0))) demo_store)) =
      [\<lparr>rt_id = 1, rt_userId = 1, rt_token = demo_token 0, rt_isRevoked = True,
        rt_expiresAt = 604800000\<rparr>]"
    unfolding logout_text(3)[OF disjI2[OF refl] tr] by (simp add: demo_store_def)
  have c: "snd (logout 9000 (Some Falsy) demo_store) = demo_store"
    by (simp add: logout_def logout_updateMany_def)
  show ?thesis
    by (intro conjI) (rule a, rule logout_idem, rule c)
qed

section \<open>Registration and e-mail verification\<close>

lemma register_ok_cases:
  assumes run: "register e now rnd req bdy s = (r, s')" and ok: "status r = 201"
  obtains d usr us' where
    "bdy = Some d"
    "user_create (toLowerCase (rb_email d)) (bcrypt_hash (rb_password d) (saltRounds e))
       (rb_firstName d) (rb_lastName d) (rb_username d) now (users s) = Some (usr, us')"
    "users s' = us'"
proof -
  obtain d where d: "bdy = Some d"
    using run ok by (cases bdy) (auto simp: register_def)
  have none: "user_findUnique_email (toLowerCase (rb_email d)) (users s) = None"
    using run ok d
    by (cases "user_findUnique_email (toLowerCase (rb_email d)) (users s)")
       (auto simp: register_def)
  have free: "\<not> (case rb_username d of None \<Rightarrow> False
                 | Some un \<Rightarrow> un \<noteq> [] \<and> user_findUnique_username un (users s) \<noteq> None)"
    using run ok d none by (auto simp: register_def split: if_splits)
  obtain usr us' where c:
    "user_create (toLowerCase (rb_email d)) (bcrypt_hash (rb_password d) (saltRounds e))
       (rb_firstName d) (rb_lastName d) (rb_username d) now (users s) = Some (usr, us')"
    using run ok d none free
    by (cases "user_create (toLowerCase (rb_email d))
                 (bcrypt_hash (rb_password d) (saltRounds e))
                 (rb_firstName d) (rb_lastName d) (rb_username d) now (users s)")
       (auto simp: register_def)
  have "users s' = us'"
    using run ok d none free c
    by (cases "emailVerification_create (u_id usr) rnd (u_email usr)
                 (now + 24 * 60 * 60 * 1000) (emailVerifications (s\<lparr>users := us'\<rparr>))")
       (auto simp: register_def Let_def)
  with d c show ?thesis using that by blast
qed

lemma register_existing:
  assumes "u \<in> set (users s)" and "u_email u = toLowerCase (rb_email d)"
  shows "register e now rnd req (Some d) s =
    (json 409 (createErrorResponse ''User already exists with this email''
       (ERROR_CODES AUTH_USER_EXISTS) now), s)"
proof -
  have "list_ex (\<lambda>x. u_email x = toLowerCase (rb_email d)) (users s)"
    using assms by (auto simp: list_ex_iff)
  then obtain x where "user_findUnique_email (toLowerCase (rb_email d)) (users s) = Some x"
    by (cases "user_findUnique_email (toLowerCase (rb_email d)) (users s)")
       (auto simp: user_findUnique_email_def find_None_list_ex)
  then show ?thesis by (simp add: register_def)
qed

text \<open>
  C5. When the store holds a user whose e-mail is the lower-cased e-mail of the request,
  \<open>register\<close> answers 409 (\<open>AUTH_USER_EXISTS\<close>) and returns the store as it was; in
  particular no user row is added. This is the case for every store that results from
  a successful registration (status 201) of an e-mail with the same lower-cased form.
  Whatever its outcome, \<open>register\<close> never makes two user rows share an e-mail.
\<close>

theorem register_conflict:
  "(\<forall>u. u \<in> set (users s) \<and> u_email u = toLowerCase (rb_email d)
      \<longrightarrow> register e now rnd req (Some d) s =
            (json 409 (createErrorResponse ''User already exists with this email''
               (ERROR_CODES AUTH_USER_EXISTS) now), s))
   \<and> (\<forall>e0 now0 rnd0 req0 d0 s0 r0.
         register e0 now0 rnd0 req0 (Some d0) s0 = (r0, s) \<and> status r0 = 201
         \<and> toLowerCase (rb_email d) = toLowerCase (rb_email d0)
      \<longrightarrow> register e now rnd req (Some d) s =
            (json 409 (createErrorResponse ''User already exists with this email''
               (ERROR_CODES AUTH_USER_EXISTS) now), s))
   \<and> (\<forall>bdy. distinct (map u_email (users s))
      \<longrightarrow> distinct (map u_email (users (snd (register e now rnd req bdy s)))))"
proof (intro conjI allI impI)
  fix u
  assume "u \<in> set (users s) \<and> u_email u = toLowerCase (rb_email d)"
  then show "register e now rnd req (Some d) s =
            (json 409 (createErrorResponse ''User already exists with this email''
               (ERROR_CODES AUTH_USER_EXISTS) now), s)"
    using register_existing by blast
next
  fix e0 now0 rnd0 req0 d0 s0 r0
  assume h: "register e0 now0 rnd0 req0 (Some d0) s0 = (r0, s) \<and> status r0 = 201
         \<and> toLowerCase (rb_email d) = toLowerCase (rb_email d0)"
  then obtain d' usr us' where
    "Some d0 = Some d'" and
    c: "user_create (toLowerCase (rb_email d')) (bcrypt_hash (rb_password d') (saltRounds e0))
       (rb_firstName d') (rb_lastName d') (rb_username d') now0 (users s0) = Some (usr, us')"
    and us: "users s = us'"
    using register_ok_cases[of e0 now0 rnd0 req0 "Some d0" s0 r0 s] by blast
  then have "usr \<in> set (users s)" "u_email usr = toLowerCase (rb_email d)"
    using user_create_member[OF c] h by simp_all
  then show "register e now rnd req (Some d) s =
            (json 409 (createErrorResponse ''User already exists with this email''
               (ERROR_CODES AUTH_USER_EXISTS) now), s)"
    by (rule register_existing)
next
  fix bdy
  assume "distinct (map u_email (users s))"
  then show "distinct (map u_email (users (snd (register e now rnd req bdy s))))"
    by (rule register_distinct_emails)
qed

text \<open>
  An instance: \<open>demo_store\<close> holds \<open>a@x.com\<close>; registering \<open>A@X.COM\<close> is refused and
  the store is unchanged.
\<close>

theorem register_conflict_witness:
  "demo_user \<in> set (users demo_store)
   \<and> u_email demo_user = toLowerCase (rb_email demo_register)
   \<and> register demo_env 9000 ''beef'' demo_req (Some demo_register) demo_store =
       (json 409 (createErrorResponse ''User already exists with this email''
          (ERROR_CODES AUTH_USER_EXISTS) 9000), demo_store)"
proof -
  have h: "demo_user \<in> set (users demo_store)
           \<and> u_email demo_user = toLowerCase (rb_email demo_register)"
    by (simp add: demo_register_def demo_store_def demo_user_def toLowerCase_def
          lower_char_def)
  note th = conjunct1[OF register_conflict[of demo_store demo_register demo_env 9000
                "''beef''" demo_req], rule_format, OF h]
  show ?thesis by (rule conjI[OF conjunct1[OF h] conjI[OF conjunct2[OF h] th]])
qed

subsection \<open>E-mail verification\<close>

lemma user_update_defined:
  assumes "list_ex (\<lambda>u. u_id u = i) us"
  shows "user_update i f us = Some (map (\<lambda>u. if u_id u = i then f u else u) us)"
  using assms by (simp add: user_update_def)

lemma emailVerification_update_defined:
  assumes "emailVerification_findUnique_token t vs = Some v"
  shows "emailVerification_update (ev_id v) f vs
           = Some (map (\<lambda>x. if ev_id x = ev_id v then f x else x) vs)"
  using find_SomeD[OF assms[unfolded emailVerification_findUnique_token_def]]
  by (auto simp: emailVerification_update_def list_ex_iff)

lemma update_at_key:
  assumes "distinct (map ev_id vs)" and "v \<in> set vs"
  shows "\<exists>k < length vs. vs ! k = v
           \<and> map (\<lambda>x. if ev_id x = ev_id v then f x else x) vs = vs[k := f v]"
  using assms
proof (induction vs)
  case Nil
  then show ?case by simp
next
  case (Cons a vs)
  show ?case
  proof (cases "a = v")
    case True
    then have "ev_id v \<notin> ev_id ` set vs" using Cons.prems by simp
    then have "\<forall>x \<in> set vs. ev_id x \<noteq> ev_id v" by (metis imageI)
    then have "map (\<lambda>x. if ev_id x = ev_id v then f x else x) vs = vs"
      by (induction vs) simp_all
    then have "(a # vs) ! 0 = v
       \<and> map (\<lambda>x. if ev_id x = ev_id v then f x else x) (a # vs) = (a # vs)[0 := f v]"
      using True by simp
    then show ?thesis by blast
  next
    case False
    then have v: "v \<in> set vs" and d: "distinct (map ev_id vs)" and ne: "ev_id a \<noteq> ev_id v"
      using Cons.prems by auto
    from Cons.IH[OF d v] obtain k where
      k: "k < length vs" "vs ! k = v"
         "map (\<lambda>x. if ev_id x = ev_id v then f x else x) vs = vs[k := f v]"
      by blast
    then have "Suc k < length (a # vs) \<and> (a # vs) ! Suc k = v
       \<and> map (\<lambda>x. if ev_id x = ev_id v then f x else x) (a # vs) = (a # vs)[Suc k := f v]"
      using ne by simp
    then show ?thesis by blast
  qed
qed

lemma verifyEmail_first:
  assumes found: "emailVerification_findUnique_token tok (emailVerifications s) = Some v"
    and pending: "ev_status v = PENDING" and live: "now \<le> ev_expiresAt v"
    and owner: "list_ex (\<lambda>u. u_id u = ev_userId v) (users s)"
  shows "verifyEmail now tok s =
    (json 200 (createSuccessResponse Null ''Email verified successfully''
       (Literal ''EMAIL_VERIFICATION_SUCCESS'') now),
     s\<lparr>users := map (\<lambda>u. if u_id u = ev_userId v then u\<lparr>u_isEmailVerified := True\<rparr> else u)
                   (users s),
       emailVerifications :=
         map (\<lambda>x. if ev_id x = ev_id v then x\<lparr>ev_status := VERIFIED\<rparr> else x)
           (emailVerifications s)\<rparr>)"
  using found pending live
  by (simp add: verifyEmail_def user_update_defined[OF owner]
        emailVerification_update_defined[OF found] Let_def)

lemma verifyEmail_again:
  assumes found: "emailVerification_findUnique_token tok (emailVerifications s) = Some v"
    and ver: "ev_status v = VERIFIED" and live: "now \<le> ev_expiresAt v"
  shows "verifyEmail now tok s =
    (json 200 (createSuccessResponse Null ''Email already verified''
       (Literal ''EMAIL_ALREADY_VERIFIED'') now), s)"
  using assms by (simp add: verifyEmail_def)

lemma find_after_verification:
  assumes "emailVerification_findUnique_token tok vs = Some v"
  shows "emailVerification_findUnique_token tok
           (map (\<lambda>x. if ev_id x = ev_id v then x\<lparr>ev_status := VERIFIED\<rparr> else x) vs)
         = Some (v\<lparr>ev_status := VERIFIED\<rparr>)"
proof -
  have "find (\<lambda>x. ev_token x = tok)
          (map (\<lambda>x. if ev_id x = ev_id v then x\<lparr>ev_status := VERIFIED\<rparr> else x) vs)
        = map_option (\<lambda>x. if ev_id x = ev_id v then x\<lparr>ev_status := VERIFIED\<rparr> else x)
            (find (\<lambda>x. ev_token x = tok) vs)"
    by (rule find_map_pres) simp
  then show ?thesis
    using assms by (simp add: emailVerification_findUnique_token_def)
qed

lemma verified_users:
  "list_all (\<lambda>u. u_id u = i \<longrightarrow> u_isEmailVerified u)
     (map (\<lambda>u. if u_id u = i then u\<lparr>u_isEmailVerified := True\<rparr> else u) us)"
  by (induction us) simp_all

lemma verified_owner_kept:
  "list_ex (\<lambda>u. u_id u = i) us \<Longrightarrow>
   list_ex (\<lambda>u. u_id u = i)
     (map (\<lambda>u. if u_id u = i then u\<lparr>u_isEmailVerified := True\<rparr> else u) us)"
  by (induction us) auto

text \<open>
  C7. Let a stored verification token be PENDING, let both calls happen no later than
  its expiry, and let the store satisfy \<open>integrity\<close>, as every store reached from the
  empty one does (\<open>reachable_integrity\<close>). The first \<open>verifyEmail\<close> answers 200, sets
  \<open>isEmailVerified\<close> of
  that user, and changes exactly one verification row, the one of the token, to
  VERIFIED; login logs and refresh tokens are untouched. The second call with the same
  token answers 200 (\<open>Email already verified\<close>) and returns the store unchanged.
\<close>

theorem verifyEmail_idempotent:
  assumes found: "emailVerification_findUnique_token tok (emailVerifications s) = Some v"
    and pending: "ev_status v = PENDING"
    and live1: "now1 \<le> ev_expiresAt v" and live2: "now2 \<le> ev_expiresAt v"
    and integ: "integrity s"
    and run1: "verifyEmail now1 tok s = (r1, s1)"
    and run2: "verifyEmail now2 tok s1 = (r2, s2)"
  shows "r1 = json 200 (createSuccessResponse Null ''Email verified successfully''
                 (Literal ''EMAIL_VERIFICATION_SUCCESS'') now1)
       \<and> users s1 = map (\<lambda>u. if u_id u = ev_userId v then u\<lparr>u_isEmailVerified := True\<rparr> else u)
                      (users s)
       \<and> list_all (\<lambda>u. u_id u = ev_userId v \<longrightarrow> u_isEmailVerified u) (users s1)
       \<and> list_ex (\<lambda>u. u_id u = ev_userId v) (users s1)
       \<and> (\<exists>k < length (emailVerifications s). emailVerifications s ! k = v
             \<and> emailVerifications s1 = (emailVerifications s)[k := v\<lparr>ev_status := VERIFIED\<rparr>])
       \<and> loginLogs s1 = loginLogs s \<and> refreshTokens s1 = refreshTokens s
       \<and> r2 = json 200 (createSuccessResponse Null ''Email already verified''
                 (Literal ''EMAIL_ALREADY_VERIFIED'') now2)
       \<and> s2 = s1"
proof -
  have mem: "v \<in> set (emailVerifications s)"
    using find_SomeD[OF found[unfolded emailVerification_findUnique_token_def]] by simp
  have keys: "distinct (map ev_id (emailVerifications s))"
    using integ by (simp add: integrity_def)
  have "list_all (\<lambda>v. list_ex (\<lambda>u. u_id u = ev_userId v) (users s)) (emailVerifications s)"
    using integ by (simp add: integrity_def)
  then have owner: "list_ex (\<lambda>u. u_id u = ev_userId v) (users s)"
    using mem unfolding list_all_iff by (rule bspec)
  let ?us = "map (\<lambda>u. if u_id u = ev_userId v then u\<lparr>u_isEmailVerified := True\<rparr> else u)
               (users s)"
  let ?vs = "map (\<lambda>x. if ev_id x = ev_id v then x\<lparr>ev_status := VERIFIED\<rparr> else x)
               (emailVerifications s)"
  have first: "verifyEmail now1 tok s =
      (json 200 (createSuccessResponse Null ''Email verified successfully''
         (Literal ''EMAIL_VERIFICATION_SUCCESS'') now1),
       s\<lparr>users := ?us, emailVerifications := ?vs\<rparr>)"
    by (rule verifyEmail_first[OF found pending live1 owner])
  then have r1: "r1 = json 200 (createSuccessResponse Null ''Email verified successfully''
                 (Literal ''EMAIL_VERIFICATION_SUCCESS'') now1)"
    and s1: "s1 = s\<lparr>users := ?us, emailVerifications := ?vs\<rparr>"
    using run1 by simp_all
  have us: "users s1 = ?us" and ll: "loginLogs s1 = loginLogs s"
    and rt: "refreshTokens s1 = refreshTokens s" and vs: "emailVerifications s1 = ?vs"
    by (simp_all add: s1)
  have all: "list_all (\<lambda>u. u_id u = ev_userId v \<longrightarrow> u_isEmailVerified u) (users s1)"
    unfolding us by (rule verified_users)
  have ex: "list_ex (\<lambda>u. u_id u = ev_userId v) (users s1)"
    unfolding us by (rule verified_owner_kept[OF owner])
  have one: "\<exists>k < length (emailVerifications s). emailVerifications s ! k = v
             \<and> emailVerifications s1 = (emailVerifications s)[k := v\<lparr>ev_status := VERIFIED\<rparr>]"
    unfolding vs by (rule update_at_key[OF keys mem])
  have found1: "emailVerification_findUnique_token tok (emailVerifications s1)
                  = Some (v\<lparr>ev_status := VERIFIED\<rparr>)"
    unfolding vs by (rule find_after_verification[OF found])
  have "verifyEmail now2 tok s1 =
      (json 200 (createSuccessResponse Null ''Email already verified''
         (Literal ''EMAIL_ALREADY_VERIFIED'') now2), s1)"
    by (rule verifyEmail_again[OF found1]) (simp_all add: live2)
  then have r2: "r2 = json 200 (createSuccessResponse Null ''Email already verified''
                 (Literal ''EMAIL_ALREADY_VERIFIED'') now2)"
    and s2: "s2 = s1"
    using run2 by simp_all
  show ?thesis
    by (intro conjI) (rule r1, rule us, rule all, rule ex, rule one, rule ll, rule rt,
                      rule r2, rule s2)
qed

text \<open>
  An instance: the pending token of \<open>demo_store\<close> is verified at time 1000 and presented
  again at time 2000.
\<close>

theorem verifyEmail_idempotent_witness:
  "users (snd (verifyEmail 1000 ''c0ffee'' demo_store))
      = [demo_user\<lparr>u_isEmailVerified := True\<rparr>, demo_disabled]
   \<and> emailVerifications (snd (verifyEmail 1000 ''c0ffee'' demo_store))
      = [demo_verification\<lparr>ev_status := VERIFIED\<rparr>]
   \<and> fst (verifyEmail 2000 ''c0ffee'' (snd (verifyEmail 1000 ''c0ffee'' demo_store)))
      = json 200 (createSuccessResponse Null ''Email already verified''
                 (Literal ''EMAIL_ALREADY_VERIFIED'') 2000)
   \<and> snd (verifyEmail 2000 ''c0ffee'' (snd (verifyEmail 1000 ''c0ffee'' demo_store)))
      = snd (verifyEmail 1000 ''c0ffee'' demo_store)"
proof -
  let ?s1 = "snd (verifyEmail 1000 ''c0ffee'' demo_store)"
  have found: "emailVerification_findUnique_token ''c0ffee'' (emailVerifications demo_store)
                 = Some demo_verification"
    by (simp add: emailVerification_findUnique_token_def demo_store_def demo_verification_def)
  have pending: "ev_status demo_verification = PENDING"
    and live1: "1000 \<le> ev_expiresAt demo_verification"
    and live2: "2000 \<le> ev_expiresAt demo_verification"
    by (simp_all add: demo_verification_def)
  have integ: "integrity demo_store"
    by (simp add: integrity_def demo_store_def demo_verification_def demo_user_def)
  have run1: "verifyEmail 1000 ''c0ffee'' demo_store
                = (fst (verifyEmail 1000 ''c0ffee'' demo_store), ?s1)"
    and run2: "verifyEmail 2000 ''c0ffee'' ?s1
                = (fst (verifyEmail 2000 ''c0ffee'' ?s1), snd (verifyEmail 2000 ''c0ffee'' ?s1))"
    by simp_all
  note th = verifyEmail_idempotent[OF found pending live1 live2 integ run1 run2]
  have us: "users ?s1 = [demo_user\<lparr>u_isEmailVerified := True\<rparr>, demo_disabled]"
    unfolding conjunct1[OF conjunct2[OF th]]
    by (simp add: demo_store_def demo_verification_def demo_user_def demo_disabled_def)
  from conjunct1[OF conjunct2[OF conjunct2[OF conjunct2[OF conjunct2[OF th]]]]]
  have vs: "emailVerifications ?s1 = [demo_verification\<lparr>ev_status := VERIFIED\<rparr>]"
    by (auto simp: demo_store_def)
  note rest = conjunct2[OF conjunct2[OF conjunct2[OF conjunct2[OF conjunct2[OF
                conjunct2[OF conjunct2[OF th]]]]]]]
  show ?thesis
    by (intro conjI) (rule us, rule vs, rule conjunct1[OF rest], rule conjunct2[OF rest])
qed

text \<open>
  C10. A stored verification token whose expiry lies before the clock reading makes
  \<open>verifyEmail\<close> answer 400 with \<open>AUTH_TOKEN_EXPIRED\<close> and leave the store unchanged,
  whatever the status of the row: the expiry test precedes the test for VERIFIED.
\<close>

theorem verifyEmail_expired:
  assumes "emailVerification_findUnique_token tok (emailVerifications s) = Some v"
    and "ev_expiresAt v < now"
  shows "verifyEmail now tok s =
    (json 400 (createErrorResponse ''Verification token has expired''
       (ERROR_CODES AUTH_TOKEN_EXPIRED) now), s)"
  using assms by (simp add: verifyEmail_def)

text \<open>
  An instance: the token of \<open>demo_verified\<close> is VERIFIED; one millisecond after its
  expiry it is refused, while at the instant of expiry it is still answered with 200.
\<close>

theorem verifyEmail_expired_witness:
  "emailVerification_findUnique_token ''c0ffee'' (emailVerifications demo_verified)
     = Some (demo_verification\<lparr>ev_status := VERIFIED\<rparr>)
   \<and> verifyEmail 86400001 ''c0ffee'' demo_verified =
       (json 400 (createErrorResponse ''Verification token has expired''
          (ERROR_CODES AUTH_TOKEN_EXPIRED) 86400001), demo_verified)
   \<and> status (fst (verifyEmail 86400000 ''c0ffee'' demo_verified)) = 200"
proof -
  have found: "emailVerification_findUnique_token ''c0ffee'' (emailVerifications demo_verified)
     = Some (demo_verification\<lparr>ev_status := VERIFIED\<rparr>)"
    by (simp add: emailVerification_findUnique_token_def demo_verified_def
          demo_verification_def)
  have late: "ev_expiresAt (demo_verification\<lparr>ev_status := VERIFIED\<rparr>) < 86400001"
    by (simp add: demo_verification_def)
  have still: "status (fst (verifyEmail 86400000 ''c0ffee'' demo_verified)) = 200"
    by (simp add: verifyEmail_def found demo_verification_def)
  show ?thesis
    by (intro conjI) (rule found, rule verifyEmail_expired[OF found late], rule still)
qed

end
